theory Spec2Isabelle
  imports Main "HOL-Library.Sublist" "HOL-Library.AList"
begin

section \<open>Strings\<close>

text \<open>
  Type UUIDs and short codes are JavaScript strings. They are modelled as character lists;
  \<open>toUpperCase\<close> is modelled on the ASCII letters, which is where type UUIDs (hexadecimal
  digits and hyphens) live. \<open>String.prototype.endsWith\<close> is the suffix test.
\<close>

definition lowerLetters :: string where
  "lowerLetters = ''abcdefghijklmnopqrstuvwxyz''"

definition upperLetters :: string where
  "upperLetters = ''ABCDEFGHIJKLMNOPQRSTUVWXYZ''"

definition toUpperCase_char :: "char \<Rightarrow> char" where
  "toUpperCase_char c =
     (case map_of (zip lowerLetters upperLetters) c of Some u \<Rightarrow> u | None \<Rightarrow> c)"

definition toUpperCase :: "string \<Rightarrow> string" where
  "toUpperCase s = map toUpperCase_char s"

definition endsWith :: "string \<Rightarrow> string \<Rightarrow> bool" where
  "endsWith s t = suffix t s"

text \<open>
  \<^verbatim>\<open>const endsWithShort = (uuid, code) => uuid.endsWith(code) || uuid.endsWith(code.toUpperCase());\<close>
\<close>

definition endsWithShort :: "string \<Rightarrow> string \<Rightarrow> bool" where
  "endsWithShort uuid code = (endsWith uuid code \<or> endsWith uuid (toUpperCase code))"

text \<open>A string without any ASCII letter; the four codes the matcher uses are of this kind.\<close>

definition letterFree :: "string \<Rightarrow> bool" where
  "letterFree s = (set s \<inter> (set lowerLetters \<union> set upperLetters) = {})"

text \<open>
  \<open>String(n)\<close> and the template literal \<open>`${n}`\<close> for a non-negative integer \<open>n\<close>:
  its decimal digits (JavaScript prints integers below \<open>10^21\<close> this way).
\<close>

function String_nat :: "nat \<Rightarrow> string" where
  "String_nat n =
     (if n < 10 then [''0123456789'' ! n]
      else String_nat (n div 10) @ [''0123456789'' ! (n mod 10)])"
  by pat_completeness auto
termination
  by (relation "measure id") auto

declare String_nat.simps [simp del]



section \<open>The remote accessory graph\<close>

text \<open>
  The snapshot returned by \<open>getAccessories()\<close>: accessories in encounter order, each with
  its \<open>aid\<close> and its services; a service has a type, possibly a name, and its
  characteristics in order; a characteristic has a type and an \<open>iid\<close>. An accessory
  without a \<open>services\<close> field is \<open>None\<close> (the code reads \<open>accessory.services || []\<close>).
\<close>

record RemoteCharacteristic =
  ch_type :: string
  iid :: nat

record RemoteService =
  svc_type :: string
  name :: "string option"
  characteristics :: "RemoteCharacteristic list"

record RemoteAccessory =
  aid :: nat
  services :: "RemoteService list option"

definition servicesOrEmpty :: "RemoteAccessory \<Rightarrow> RemoteService list" where
  "servicesOrEmpty accessory = (case services accessory of None \<Rightarrow> [] | Some ss \<Rightarrow> ss)"

section \<open>The signature matcher\<close>

definition hasSwitch :: "RemoteAccessory \<Rightarrow> bool" where
  "hasSwitch accessory =
     list_ex (\<lambda>svc. endsWithShort (svc_type svc) ''49'') (servicesOrEmpty accessory)"

definition hasBattery :: "RemoteAccessory \<Rightarrow> bool" where
  "hasBattery accessory =
     list_ex (\<lambda>svc. endsWithShort (svc_type svc) ''96'') (servicesOrEmpty accessory)"

text \<open>
  The loop over \<open>bridgeAccessories\<close> with its \<open>break\<close>: the first accessory with both
  services, or \<open>None\<close> for \<open>candidateAccessory\<close> left undefined.
\<close>

fun findCandidate :: "RemoteAccessory list \<Rightarrow> RemoteAccessory option" where
  "findCandidate [] = None"
| "findCandidate (accessory # rest) =
     (if hasSwitch accessory \<and> hasBattery accessory then Some accessory
      else findCandidate rest)"

text \<open>
  The inner loop over \<open>svc.characteristics\<close>: every characteristic whose type ends in the
  code overwrites the captured \<open>iid\<close>.
\<close>

fun scanCharacteristics :: "string \<Rightarrow> RemoteCharacteristic list \<Rightarrow> nat option \<Rightarrow> nat option" where
  "scanCharacteristics code [] captured = captured"
| "scanCharacteristics code (ch # rest) captured =
     scanCharacteristics code rest
       (if endsWithShort (ch_type ch) code then Some (iid ch) else captured)"

text \<open>
  The outer loop over the candidate's services; the pair is
  \<open>(onCharacteristic, batteryCharacteristic)\<close>, both \<open>undefined\<close> at the start.
\<close>

fun extractCharacteristics ::
  "RemoteService list \<Rightarrow> nat option \<times> nat option \<Rightarrow> nat option \<times> nat option" where
  "extractCharacteristics [] (onCh, batteryCh) = (onCh, batteryCh)"
| "extractCharacteristics (svc # rest) (onCh, batteryCh) =
     (if endsWithShort (svc_type svc) ''49'' then
        extractCharacteristics rest (scanCharacteristics ''25'' (characteristics svc) onCh, batteryCh)
      else if endsWithShort (svc_type svc) ''96'' then
        extractCharacteristics rest (onCh, scanCharacteristics ''68'' (characteristics svc) batteryCh)
      else extractCharacteristics rest (onCh, batteryCh))"

section \<open>The local accessory registry\<close>

text \<open>
  The part of a platform accessory's \<open>context\<close> bag the plugin uses. A key that is absent,
  or holds \<open>undefined\<close>, is \<open>None\<close>.
\<close>

record accessory_context =
  accessoryAid :: "nat option"
  onCharacteristic :: "nat option"
  batteryCharacteristic :: "nat option"

record PlatformAccessory =
  displayName :: string
  UUID :: string
  context' :: accessory_context

text \<open>JavaScript truthiness of such a value: \<open>undefined\<close> and \<open>0\<close> are falsy.\<close>

definition truthy :: "nat option \<Rightarrow> bool" where
  "truthy v = (case v of None \<Rightarrow> False | Some n \<Rightarrow> n \<noteq> 0)"

text \<open>
  Everything the plugin does to its collaborators is recorded, in order: log lines (by
  level), the construction of a characteristic proxy, the calls on the host's accessory
  registry and the calls on the remote client.
\<close>

datatype level = Debug | Info | Warn | Error

datatype effect =
    Log level
  | NewVacuumAccessory PlatformAccessory
  | RegisterPlatformAccessories PlatformAccessory
  | UpdatePlatformAccessories PlatformAccessory
  | UnregisterPlatformAccessories PlatformAccessory
  | SetCharacteristics "(string \<times> bool) list"
  | GetCharacteristics "string list"

text \<open>
  The platform object. \<open>accessories\<close> is a JavaScript \<open>Map\<close>: an association list in
  insertion order (\<open>set\<close> is \<open>AList.update\<close>, \<open>get\<close> is \<open>map_of\<close>, \<open>delete\<close> is
  \<open>AList.delete\<close>). \<open>httpClient\<close> records whether the client field is defined.
\<close>

record HACompositePlatform =
  accessories :: "(string \<times> PlatformAccessory) list"
  discoveredCacheUUIDs :: "string list"
  bridgeAccessories :: "RemoteAccessory list"
  httpClient :: bool

definition new_HACompositePlatform :: HACompositePlatform where
  "new_HACompositePlatform =
     \<lparr>accessories = [], discoveredCacheUUIDs = [], bridgeAccessories = [], httpClient = False\<rparr>"

definition configureAccessory ::
  "PlatformAccessory \<Rightarrow> HACompositePlatform \<Rightarrow> HACompositePlatform \<times> effect list" where
  "configureAccessory accessory this =
     (this\<lparr>accessories := AList.update (UUID accessory) accessory (accessories this)\<rparr>,
      [Log Info])"

section \<open>The bridge session\<close>

text \<open>
  The \<open>controller\<close> entry of the platform configuration, and what the remote client does
  when \<open>connectToBridge\<close> constructs it and asks for the accessories. The pairing data is
  an opaque object: only its presence is read.
\<close>

record ControllerConfig =
  controller_id :: "string option"
  address :: "string option"
  port :: "nat option"
  pairingData :: "unit option"

definition truthy_string :: "string option \<Rightarrow> bool" where
  "truthy_string v = (case v of None \<Rightarrow> False | Some s \<Rightarrow> s \<noteq> [])"

datatype connect_outcome =
    ConstructorThrows
  | GetAccessoriesRejects
  | GetAccessoriesResolves "RemoteAccessory list"

definition connectToBridge ::
  "ControllerConfig option \<Rightarrow> connect_outcome \<Rightarrow> HACompositePlatform \<Rightarrow>
   HACompositePlatform \<times> effect list" where
  "connectToBridge controller outcome this =
     (case controller of
        None \<Rightarrow> (this, [Log Warn])
      | Some controllerConfig \<Rightarrow>
          if \<not> truthy_string (controller_id controllerConfig)
             \<or> \<not> truthy_string (address controllerConfig)
             \<or> \<not> truthy (port controllerConfig)
             \<or> pairingData controllerConfig = None
          then (this, [Log Warn])
          else (case outcome of
                  ConstructorThrows \<Rightarrow> (this, [Log Debug, Log Error])
                | GetAccessoriesRejects \<Rightarrow> (this\<lparr>httpClient := True\<rparr>, [Log Debug, Log Error])
                | GetAccessoriesResolves found \<Rightarrow>
                    (this\<lparr>httpClient := True, bridgeAccessories := found\<rparr>,
                     [Log Debug, Log Info])))"

section \<open>The reconciliation pass\<close>

text \<open>\<^verbatim>\<open>candidateAccessory.services[0]?.name || 'Robot Vacuum'\<close>\<close>

definition candidateDisplayName :: "RemoteAccessory \<Rightarrow> string" where
  "candidateDisplayName candidateAccessory =
     (case servicesOrEmpty candidateAccessory of
        [] \<Rightarrow> ''Robot Vacuum''
      | svc # _ \<Rightarrow>
          (case name svc of
             None \<Rightarrow> ''Robot Vacuum''
           | Some n \<Rightarrow> if n = [] then ''Robot Vacuum'' else n))"

text \<open>
  The two branches on \<open>this.accessories.get(uuid)\<close>: an existing accessory has its three
  context entries overwritten in place and is passed to \<open>updatePlatformAccessories\<close>; otherwise
  a new accessory is created, registered and stored under \<open>uuid\<close>. Either way a new
  \<open>VacuumAccessory\<close> is constructed on it.
\<close>

definition restoreOrAdd ::
  "string \<Rightarrow> string \<Rightarrow> accessory_context \<Rightarrow> (string \<times> PlatformAccessory) list \<Rightarrow>
   (string \<times> PlatformAccessory) list \<times> effect list" where
  "restoreOrAdd uuid newName ctx registry =
     (case map_of registry uuid of
        Some existing \<Rightarrow>
          (AList.update uuid (existing\<lparr>context' := ctx\<rparr>) registry,
           [Log Info, NewVacuumAccessory (existing\<lparr>context' := ctx\<rparr>),
            UpdatePlatformAccessories (existing\<lparr>context' := ctx\<rparr>)])
      | None \<Rightarrow>
          (AList.update uuid \<lparr>displayName = newName, UUID = uuid, context' = ctx\<rparr> registry,
           [Log Info, NewVacuumAccessory \<lparr>displayName = newName, UUID = uuid, context' = ctx\<rparr>,
            RegisterPlatformAccessories \<lparr>displayName = newName, UUID = uuid, context' = ctx\<rparr>]))"

text \<open>
  The closing loop \<open>for (const [id, acc] of this.accessories)\<close>: the entries are visited in
  order; one whose key is not among the discovered identifiers is logged, unregistered and
  deleted from the map.
\<close>

fun removeStale ::
  "string list \<Rightarrow> (string \<times> PlatformAccessory) list \<Rightarrow> (string \<times> PlatformAccessory) list \<Rightarrow>
   (string \<times> PlatformAccessory) list \<times> effect list" where
  "removeStale discovered [] registry = (registry, [])"
| "removeStale discovered ((ident, acc) # rest) registry =
     (if ident \<notin> set discovered then
        (case removeStale discovered rest (AList.delete ident registry) of
           (registry', calls) \<Rightarrow>
             (registry', Log Info # UnregisterPlatformAccessories acc # calls))
      else removeStale discovered rest registry)"

text \<open>
  The values \<open>discoverDevices\<close> computes from the candidate: the context entries
  (\<open>accessoryAid\<close> and the two captured \<open>iid\<close>s) and the identifier
  \<open>this.api.hap.uuid.generate(String(accessoryAid))\<close>. The host's generator is the
  parameter \<open>generate\<close>.
\<close>

definition matchedContext :: "RemoteAccessory \<Rightarrow> accessory_context" where
  "matchedContext candidateAccessory =
     (case extractCharacteristics (servicesOrEmpty candidateAccessory) (None, None) of
        (onCh, batteryCh) \<Rightarrow>
          \<lparr>accessoryAid = Some (aid candidateAccessory),
           onCharacteristic = onCh, batteryCharacteristic = batteryCh\<rparr>)"

definition derivedIdentifier :: "(string \<Rightarrow> string) \<Rightarrow> RemoteAccessory \<Rightarrow> string" where
  "derivedIdentifier generate candidateAccessory =
     generate (String_nat (aid candidateAccessory))"

text \<open>
  \<open>discoverDevices\<close>. Both early returns leave the platform as it is. Past them, the
  missing captures are warned about, the accessory is restored or added, the identifier is
  pushed onto \<open>discoveredCacheUUIDs\<close> and the stale entries are removed.
\<close>

definition discoverDevices ::
  "(string \<Rightarrow> string) \<Rightarrow> HACompositePlatform \<Rightarrow> HACompositePlatform \<times> effect list" where
  "discoverDevices generate this =
     (if \<not> httpClient this \<or> length (bridgeAccessories this) = 0 then (this, [Log Warn])
      else
        (case findCandidate (bridgeAccessories this) of
           None \<Rightarrow> (this, [Log Warn])
         | Some candidateAccessory \<Rightarrow>
             (case restoreOrAdd (derivedIdentifier generate candidateAccessory)
                     (candidateDisplayName candidateAccessory)
                     (matchedContext candidateAccessory) (accessories this) of
                (registry, calls) \<Rightarrow>
                  (case removeStale
                          (discoveredCacheUUIDs this @
                             [derivedIdentifier generate candidateAccessory])
                          registry registry of
                     (registry', removals) \<Rightarrow>
                       (this\<lparr>accessories := registry',
                             discoveredCacheUUIDs :=
                               discoveredCacheUUIDs this @
                                 [derivedIdentifier generate candidateAccessory]\<rparr>,
                        (if \<not> truthy (onCharacteristic (matchedContext candidateAccessory))
                         then [Log Warn] else []) @
                        (if \<not> truthy (batteryCharacteristic (matchedContext candidateAccessory))
                         then [Log Warn] else []) @
                        calls @ removals)))))"

text \<open>
  The accessory \<open>restoreOrAdd\<close> leaves under \<open>uuid\<close>: the existing one with its context
  overwritten, or the new one.
\<close>

definition storedAccessory ::
  "string \<Rightarrow> string \<Rightarrow> accessory_context \<Rightarrow> (string \<times> PlatformAccessory) list \<Rightarrow>
   PlatformAccessory" where
  "storedAccessory uuid newName ctx registry =
     (case map_of registry uuid of
        Some existing \<Rightarrow> existing\<lparr>context' := ctx\<rparr>
      | None \<Rightarrow> \<lparr>displayName = newName, UUID = uuid, context' = ctx\<rparr>)"

text \<open>
  A stand-in for the host's identifier generator in the worked examples; the theorems hold
  for every generator.
\<close>

definition sampleGenerate :: "string \<Rightarrow> string" where
  "sampleGenerate s = ''uuid-'' @ s"

text \<open>The accessories handed to \<open>unregisterPlatformAccessories\<close>, in call order.\<close>

fun unregistered :: "effect list \<Rightarrow> PlatformAccessory list" where
  "unregistered [] = []"
| "unregistered (UnregisterPlatformAccessories acc # rest) = acc # unregistered rest"
| "unregistered (_ # rest) = unregistered rest"

fun registered :: "effect list \<Rightarrow> PlatformAccessory list" where
  "registered [] = []"
| "registered (RegisterPlatformAccessories acc # rest) = acc # registered rest"
| "registered (_ # rest) = registered rest"

text \<open>
  What every reachable registry satisfies: a \<open>Map\<close> holds a key once, and every accessory
  is stored under its own \<open>UUID\<close>.
\<close>

definition registry_ok :: "(string \<times> PlatformAccessory) list \<Rightarrow> bool" where
  "registry_ok registry =
     (distinct (map fst registry) \<and> list_all (\<lambda>(ident, acc). UUID acc = ident) registry)"

section \<open>The characteristic proxy\<close>

text \<open>
  A \<open>VacuumAccessory\<close> holds the platform accessory it was constructed on and its two cached
  values. Its handlers read the addresses from the accessory's context and the client from
  the platform on every call; the client's presence is the argument \<open>client\<close>.
\<close>

record VacuumAccessory =
  accessory :: PlatformAccessory
  lastOnState :: bool
  lastBatteryLevel :: int

definition new_VacuumAccessory :: "PlatformAccessory \<Rightarrow> VacuumAccessory" where
  "new_VacuumAccessory acc = \<lparr>accessory = acc, lastOnState = False, lastBatteryLevel = 100\<rparr>"

text \<open>
  A context entry inside a template literal: \<open>undefined\<close> prints as that word, a number as
  its digits. \<open>characteristicAddress\<close> is \<^verbatim>\<open>`${accessoryAid}.${iid}`\<close>.
\<close>

definition template :: "nat option \<Rightarrow> string" where
  "template v = (case v of None \<Rightarrow> ''undefined'' | Some n \<Rightarrow> String_nat n)"

definition characteristicAddress :: "nat option \<Rightarrow> nat option \<Rightarrow> string" where
  "characteristicAddress a i = template a @ ''.'' @ template i"

text \<open>
  What the remote client answers: a set resolves or rejects; a get rejects or resolves
  with a sequence of entries, of which only the \<open>value\<close> slot is read and only whether it
  is a number matters (\<open>JOther\<close> is any other value, or none).
\<close>

datatype set_outcome = SetResolves | SetRejects

datatype js_value = JNumber int | JOther

datatype get_outcome = GetResolves "js_value list" | GetRejects

text \<open>How the body of a \<open>try\<close> block ends, and how a promise settles.\<close>

datatype 'a completion = Returns 'a | Completes | Throws

datatype 'a promise = Resolved 'a | Rejected

text \<open>
  \<open>setOn\<close> runs synchronously up to its \<open>await\<close>: \<open>setOn_begin\<close> is that prefix, and its
  last component tells whether a remote set was issued and is being awaited.
  \<open>setOn_resume\<close> is the rest, run when the remote call has settled. \<open>setOn\<close> is the whole
  call with nothing in between.
\<close>

definition setOn_begin ::
  "bool \<Rightarrow> bool \<Rightarrow> VacuumAccessory \<Rightarrow> VacuumAccessory \<times> effect list \<times> bool" where
  "setOn_begin client boolValue this =
     (if \<not> truthy (accessoryAid (context' (accessory this)))
         \<or> \<not> truthy (onCharacteristic (context' (accessory this)))
      then (this\<lparr>lastOnState := boolValue\<rparr>, [Log Info, Log Warn], False)
      else if \<not> client
      then (this\<lparr>lastOnState := boolValue\<rparr>, [Log Info, Log Warn], False)
      else (this\<lparr>lastOnState := boolValue\<rparr>,
            [Log Info,
             SetCharacteristics
               [(characteristicAddress (accessoryAid (context' (accessory this)))
                   (onCharacteristic (context' (accessory this))), boolValue)]],
            True))"

definition setOn_resume ::
  "set_outcome \<Rightarrow> VacuumAccessory \<Rightarrow> VacuumAccessory \<times> effect list \<times> unit promise" where
  "setOn_resume outcome this =
     (case outcome of
        SetResolves \<Rightarrow> (this, [], Resolved ())
      | SetRejects \<Rightarrow> (this, [Log Error], Resolved ()))"

definition setOn ::
  "bool \<Rightarrow> bool \<Rightarrow> set_outcome \<Rightarrow> VacuumAccessory \<Rightarrow>
   VacuumAccessory \<times> effect list \<times> unit promise" where
  "setOn client boolValue outcome this =
     (case setOn_begin client boolValue this of
        (this', effects, awaiting) \<Rightarrow>
          if awaiting then
            (case setOn_resume outcome this' of
               (this'', effects', settled) \<Rightarrow> (this'', effects @ effects', settled))
          else (this', effects, Resolved ()))"

definition getOn :: "VacuumAccessory \<Rightarrow> VacuumAccessory \<times> effect list \<times> bool promise" where
  "getOn this = (this, [], Resolved (lastOnState this))"

text \<open>
  \<open>characteristics[0]?.value\<close>: the first entry's value, or \<open>undefined\<close> for an empty
  sequence.
\<close>

definition firstValue :: "js_value list \<Rightarrow> js_value" where
  "firstValue entries = (case entries of [] \<Rightarrow> JOther | entry # _ \<Rightarrow> entry)"

text \<open>The \<open>try\<close> block of \<open>getBatteryLevel\<close>, then the whole function.\<close>

definition getBatteryLevel_try ::
  "bool \<Rightarrow> get_outcome \<Rightarrow> VacuumAccessory \<Rightarrow> VacuumAccessory \<times> effect list \<times> int completion" where
  "getBatteryLevel_try client outcome this =
     (if \<not> truthy (accessoryAid (context' (accessory this)))
         \<or> \<not> truthy (batteryCharacteristic (context' (accessory this)))
      then (this, [Log Warn], Returns (lastBatteryLevel this))
      else if \<not> client
      then (this, [Log Warn], Returns (lastBatteryLevel this))
      else
        (case outcome of
           GetRejects \<Rightarrow>
             (this,
              [GetCharacteristics
                 [characteristicAddress (accessoryAid (context' (accessory this)))
                    (batteryCharacteristic (context' (accessory this)))]],
              Throws)
         | GetResolves entries \<Rightarrow>
             (case firstValue entries of
                JNumber n \<Rightarrow>
                  (this\<lparr>lastBatteryLevel := n\<rparr>,
                   [GetCharacteristics
                      [characteristicAddress (accessoryAid (context' (accessory this)))
                         (batteryCharacteristic (context' (accessory this)))]],
                   Completes)
              | JOther \<Rightarrow>
                  (this,
                   [GetCharacteristics
                      [characteristicAddress (accessoryAid (context' (accessory this)))
                         (batteryCharacteristic (context' (accessory this)))]],
                   Completes))))"

definition getBatteryLevel ::
  "bool \<Rightarrow> get_outcome \<Rightarrow> VacuumAccessory \<Rightarrow> VacuumAccessory \<times> effect list \<times> int promise" where
  "getBatteryLevel client outcome this =
     (case getBatteryLevel_try client outcome this of
        (this', effects, Returns v) \<Rightarrow> (this', effects, Resolved v)
      | (this', effects, Completes) \<Rightarrow> (this', effects, Resolved (lastBatteryLevel this'))
      | (this', effects, Throws) \<Rightarrow>
          (this', effects @ [Log Error], Resolved (lastBatteryLevel this')))"


text \<open>
  The life of one proxy instance: a sequence of handler calls, each with the client's
  presence at that moment and the remote side's answer should the call reach it.
\<close>

datatype handler_call = SetOn bool set_outcome | GetOn | GetBatteryLevel get_outcome

fun isSetOn :: "handler_call \<Rightarrow> bool" where
  "isSetOn (SetOn boolValue outcome) = True"
| "isSetOn _ = False"

fun handler :: "bool \<Rightarrow> handler_call \<Rightarrow> VacuumAccessory \<Rightarrow> VacuumAccessory \<times> effect list" where
  "handler client (SetOn boolValue outcome) this =
     (case setOn client boolValue outcome this of (this', effects, _) \<Rightarrow> (this', effects))"
| "handler client GetOn this =
     (case getOn this of (this', effects, _) \<Rightarrow> (this', effects))"
| "handler client (GetBatteryLevel outcome) this =
     (case getBatteryLevel client outcome this of (this', effects, _) \<Rightarrow> (this', effects))"

fun lifetime ::
  "(bool \<times> handler_call) list \<Rightarrow> VacuumAccessory \<Rightarrow> VacuumAccessory \<times> effect list" where
  "lifetime [] this = (this, [])"
| "lifetime ((client, c) # rest) this =
     (case handler client c this of
        (this', effects) \<Rightarrow>
          (case lifetime rest this' of (this'', effects') \<Rightarrow> (this'', effects @ effects')))"

section \<open>Properties of the string helpers\<close>

lemma toUpperCase_char_letterFree:
  assumes "toUpperCase_char c = d" and "d \<notin> set lowerLetters \<union> set upperLetters"
  shows "c = d"
proof (cases "map_of (zip lowerLetters upperLetters) c")
  case None
  with assms(1) show ?thesis by (simp add: toUpperCase_char_def)
next
  case (Some u)
  then have "(c, u) \<in> set (zip lowerLetters upperLetters)" by (rule map_of_SomeD)
  then have "u \<in> set upperLetters" by (rule set_zip_rightD)
  moreover from Some assms(1) have "u = d" by (simp add: toUpperCase_char_def)
  ultimately show ?thesis using assms(2) by simp
qed

lemma toUpperCase_letterFree:
  "toUpperCase s = t \<Longrightarrow> letterFree t \<Longrightarrow> s = t"
proof (induction s arbitrary: t)
  case Nil
  then show ?case by (simp add: toUpperCase_def)
next
  case (Cons c s)
  from Cons.prems(1) obtain d t' where t: "t = d # t'" and d: "toUpperCase_char c = d"
    and t': "toUpperCase s = t'"
    by (auto simp: toUpperCase_def)
  from Cons.prems(2) t have "d \<notin> set lowerLetters \<union> set upperLetters" and "letterFree t'"
    by (auto simp: letterFree_def)
  with d t' Cons.IH show ?case unfolding t
    by (simp add: toUpperCase_char_letterFree)
qed

lemma toUpperCase_length [simp]: "length (toUpperCase s) = length s"
  by (simp add: toUpperCase_def)

lemma toUpperCase_append: "toUpperCase (s @ t) = toUpperCase s @ toUpperCase t"
  by (simp add: toUpperCase_def)

lemma toUpperCase_char_id: "c \<notin> set lowerLetters \<Longrightarrow> toUpperCase_char c = c"
proof -
  assume "c \<notin> set lowerLetters"
  then have "map_of (zip lowerLetters upperLetters) c = None"
    by (simp add: map_of_eq_None_iff lowerLetters_def upperLetters_def)
  then show ?thesis by (simp add: toUpperCase_char_def)
qed

lemma toUpperCase_id: "letterFree s \<Longrightarrow> toUpperCase s = s"
  by (induction s) (auto simp: toUpperCase_def letterFree_def toUpperCase_char_id)

lemma letterFree_suffix_caseless:
  assumes "letterFree code" and "toUpperCase uuid = toUpperCase uuid'" and "suffix code uuid"
  shows "suffix code uuid'"
proof -
  from assms(3) obtain zs where uuid: "uuid = zs @ code" by (auto simp: suffix_def)
  have len: "length uuid' = length zs + length code"
    using arg_cong [OF assms(2), of length] uuid by simp
  define zs' where "zs' = take (length zs) uuid'"
  define code' where "code' = drop (length zs) uuid'"
  have split: "uuid' = zs' @ code'" by (simp add: zs'_def code'_def)
  have "length zs' = length zs" using len by (simp add: zs'_def)
  moreover have "toUpperCase zs @ toUpperCase code = toUpperCase zs' @ toUpperCase code'"
    using assms(2) unfolding uuid split by (simp add: toUpperCase_append)
  ultimately have "toUpperCase code' = toUpperCase code" by simp
  then have "toUpperCase code' = code" using assms(1) by (simp add: toUpperCase_id)
  then have "code' = code" using assms(1) by (rule toUpperCase_letterFree)
  with split show ?thesis by (simp add: suffix_def)
qed

lemma endsWithShort_letterFree:
  "letterFree code \<Longrightarrow> endsWithShort uuid code = suffix code uuid"
  by (simp add: endsWithShort_def endsWith_def toUpperCase_id)

lemma codes_letterFree:
  "letterFree ''49''" "letterFree ''96''" "letterFree ''25''" "letterFree ''68''"
  by (simp_all add: letterFree_def lowerLetters_def upperLetters_def)

text \<open>The facts that evaluate the string helpers on literals.\<close>

lemmas string_eval =
  endsWithShort_def endsWith_def toUpperCase_def toUpperCase_char_def letterFree_def
  lowerLetters_def upperLetters_def suffix_to_prefix

section \<open>What \<open>String_nat\<close> prints\<close>














section \<open>C2: the suffix test and letter case\<close>

lemma endsWithShort_caseless_letterFree:
  assumes "letterFree code"
    and "toUpperCase uuid' = toUpperCase uuid"
    and "toUpperCase code' = toUpperCase code"
  shows "endsWithShort uuid' code' = endsWithShort uuid code"
proof -
  have "toUpperCase code' = code" using assms(1,3) by (simp add: toUpperCase_id)
  then have code': "code' = code" using assms(1) by (rule toUpperCase_letterFree)
  have "suffix code uuid' = suffix code uuid"
    using letterFree_suffix_caseless [OF assms(1), of uuid uuid']
      letterFree_suffix_caseless [OF assms(1), of uuid' uuid] assms(2) by auto
  then show ?thesis using assms(1) code' by (simp add: endsWithShort_letterFree)
qed

lemma required_codes_letterFree:
  "code \<in> {''49'', ''96'', ''25'', ''68''} \<Longrightarrow> letterFree code"
  using codes_letterFree by auto

text \<open>
  For a code with letters, which the matcher never passes, the test tries the code as
  written and the code in upper case against the type as stored: a lower-case code matches
  an upper-case suffix, an upper-case code does not match a lower-case one.
\<close>

lemma endsWithShort_letter_codes:
  "endsWithShort ''0000008A'' ''8a'' \<and> endsWithShort ''0000008A'' ''8A''
   \<and> endsWithShort ''0000008a'' ''8a'' \<and> \<not> endsWithShort ''0000008a'' ''8A''"
  by (simp add: string_eval)

text \<open>
  C2: for every type and each of the codes the matcher requires (\<open>49\<close>, \<open>96\<close>, \<open>25\<close>, \<open>68\<close>,
  and any other code without letters), the suffix test ignores letter case on both sides:
  given any type that agrees with \<open>uuid\<close> up to letter case and any code that agrees with
  \<open>code\<close> up to letter case, the test succeeds exactly when \<open>uuid\<close> ends in \<open>code\<close>. For any
  code at all, the test succeeds when the type ends in the code as written, or in the upper
  case of any code that agrees with it up to letter case, and in no other case. Here
  \<open>toUpperCase\<close> takes each lower-case letter to its capital and leaves every other character.
\<close>

theorem endsWithShort_case_insensitive:
  "((code \<in> {''49'', ''96'', ''25'', ''68''} \<or> letterFree code)
      \<and> toUpperCase uuid' = toUpperCase uuid \<and> toUpperCase code' = toUpperCase code \<longrightarrow>
      endsWithShort uuid' code' = suffix code uuid)
   \<and> (suffix code uuid \<longrightarrow> endsWithShort uuid code)
   \<and> (toUpperCase code' = toUpperCase code \<and> suffix (toUpperCase code) uuid \<longrightarrow>
        endsWithShort uuid code')
   \<and> (endsWithShort uuid code \<longrightarrow> suffix code uuid \<or> suffix (toUpperCase code) uuid)
   \<and> toUpperCase ''abcdefghijklmnopqrstuvwxyz'' = ''ABCDEFGHIJKLMNOPQRSTUVWXYZ''
   \<and> (set s \<inter> set ''abcdefghijklmnopqrstuvwxyz'' = {} \<longrightarrow> toUpperCase s = s)"
proof -
  have caseless: "endsWithShort uuid' code' = suffix code uuid"
    if "code \<in> {''49'', ''96'', ''25'', ''68''} \<or> letterFree code"
      and "toUpperCase uuid' = toUpperCase uuid" and "toUpperCase code' = toUpperCase code"
  proof -
    from that(1) have free: "letterFree code" using required_codes_letterFree by blast
    have "endsWithShort uuid' code' = endsWithShort uuid code"
      using free that(2,3) by (rule endsWithShort_caseless_letterFree)
    then show ?thesis using free by (simp add: endsWithShort_letterFree)
  qed
  have exact: "endsWithShort uuid code" if "suffix code uuid"
    using that by (simp add: endsWithShort_def endsWith_def)
  have upper: "endsWithShort uuid code'"
    if "toUpperCase code' = toUpperCase code" and "suffix (toUpperCase code) uuid"
    using that by (simp add: endsWithShort_def endsWith_def)
  have only: "suffix code uuid \<or> suffix (toUpperCase code) uuid" if "endsWithShort uuid code"
    using that by (simp add: endsWithShort_def endsWith_def)
  have letters: "toUpperCase ''abcdefghijklmnopqrstuvwxyz'' = ''ABCDEFGHIJKLMNOPQRSTUVWXYZ''"
    by (simp add: toUpperCase_def toUpperCase_char_def lowerLetters_def upperLetters_def)
  have others: "toUpperCase s = s" if "set s \<inter> set ''abcdefghijklmnopqrstuvwxyz'' = {}"
  proof -
    have "toUpperCase_char c = c" if "c \<in> set s" for c
    proof (rule toUpperCase_char_id)
      from that \<open>set s \<inter> set ''abcdefghijklmnopqrstuvwxyz'' = {}\<close>
      show "c \<notin> set lowerLetters" unfolding lowerLetters_def by blast
    qed
    then show ?thesis by (simp add: toUpperCase_def map_idI)
  qed
  from caseless exact upper only letters others show ?thesis by blast
qed

theorem endsWithShort_case_insensitive_witness:
  "''49'' \<in> {''49'', ''96'', ''25'', ''68''}
   \<and> toUpperCase ''000000bb-0049'' = toUpperCase ''000000BB-0049''
   \<and> toUpperCase ''49'' = toUpperCase ''49''
   \<and> suffix ''49'' ''000000BB-0049''
   \<and> endsWithShort ''000000bb-0049'' ''49''
   \<and> endsWithShort ''000000BB-0049'' ''49''
   \<and> \<not> endsWithShort ''000000BB-0096'' ''49''
   \<and> toUpperCase ''8a'' = toUpperCase ''8A''
   \<and> endsWithShort ''0000008A'' ''8a''"
  using endsWithShort_case_insensitive [of "''49''" "''000000bb-0049''" "''000000BB-0049''" "''49''" "''x''"]
  by (simp add: string_eval)

section \<open>C5: first match wins\<close>





section \<open>The characteristic proxy: addressing and optimism\<close>

text \<open>The facts that evaluate the proxy on a concrete accessory.\<close>

lemmas proxy_defs =
  setOn_def setOn_begin_def setOn_resume_def getOn_def getBatteryLevel_def
  getBatteryLevel_try_def firstValue_def new_VacuumAccessory_def truthy_def
  characteristicAddress_def template_def String_nat.simps

lemma lifetime_Cons:
  "lifetime ((client, c) # rest) this =
     (fst (lifetime rest (fst (handler client c this))),
      snd (handler client c this) @ snd (lifetime rest (fst (handler client c this))))"
  by (simp split: prod.split)

lemma handler_keeps_lastOnState:
  "\<not> isSetOn c \<Longrightarrow> lastOnState (fst (handler client c this)) = lastOnState this"
  by (cases c)
     (auto simp: getOn_def getBatteryLevel_def getBatteryLevel_try_def
        split: get_outcome.split js_value.split)

lemma lifetime_keeps_lastOnState:
  "list_all (\<lambda>(client, c). \<not> isSetOn c) calls \<Longrightarrow>
   lastOnState (fst (lifetime calls this)) = lastOnState this"
proof (induction calls arbitrary: this)
  case Nil
  show ?case by simp
next
  case (Cons cc calls)
  obtain client c where cc: "cc = (client, c)" by (cases cc)
  from Cons.prems have c: "\<not> isSetOn c"
    and rest: "list_all (\<lambda>(client, c). \<not> isSetOn c) calls" by (simp_all add: cc)
  show ?case unfolding cc lifetime_Cons
    by (simp add: Cons.IH [OF rest] handler_keeps_lastOnState [OF c])
qed

lemma setOn_lastOnState: "lastOnState (fst (setOn client b outcome this)) = b"
  by (cases outcome) (simp_all add: setOn_def setOn_begin_def setOn_resume_def)

text \<open>
  C7: \<open>setOn\<close> stores the value in \<open>lastOnState\<close> in its synchronous prefix, before the
  remote set is awaited, and nothing after the \<open>await\<close> touches it; \<open>getOn\<close> returns
  \<open>lastOnState\<close> and issues no call. So \<open>getOn\<close> right after \<open>setOn\<close> resolves with the value
  written, whether the remote set was skipped, resolved or rejected, and also when it is
  called while the set is still awaited. No other handler writes \<open>lastOnState\<close>: the value
  stands through any later calls until the next \<open>setOn\<close>.
\<close>

theorem setOn_then_getOn:
  "lastOnState (fst (setOn_begin client b this)) = b
   \<and> lastOnState (fst (setOn_resume outcome this)) = lastOnState this
   \<and> lastOnState (fst (setOn client b outcome this)) = b
   \<and> snd (snd (setOn client b outcome this)) = Resolved ()
   \<and> getOn this = (this, [], Resolved (lastOnState this))
   \<and> snd (snd (getOn (fst (setOn_begin client b this)))) = Resolved b
   \<and> snd (snd (getOn (fst (setOn client b outcome this)))) = Resolved b
   \<and> (list_all (\<lambda>(client, c). \<not> isSetOn c) calls \<longrightarrow>
        snd (snd (getOn (fst (lifetime calls (fst (setOn client b outcome this)))))) = Resolved b)"
proof -
  have prefix: "lastOnState (fst (setOn_begin client b this)) = b"
    by (simp add: setOn_begin_def)
  have resume: "lastOnState (fst (setOn_resume outcome this)) = lastOnState this"
    by (cases outcome) (simp_all add: setOn_resume_def)
  have settled: "snd (snd (setOn client b outcome this)) = Resolved ()"
    by (cases outcome) (simp_all add: setOn_def setOn_begin_def setOn_resume_def)
  have later: "lastOnState (fst (lifetime calls (fst (setOn client b outcome this)))) = b"
    if "list_all (\<lambda>(client, c). \<not> isSetOn c) calls"
    using lifetime_keeps_lastOnState [OF that] by (simp add: setOn_lastOnState)
  show ?thesis
    using prefix resume settled later by (simp add: getOn_def setOn_lastOnState)
qed

theorem setOn_then_getOn_witness:
  "snd (snd (getOn (fst (setOn True True SetRejects
      (new_VacuumAccessory \<lparr>displayName = ''Robot Vacuum'', UUID = ''u'',
         context' = \<lparr>accessoryAid = Some 5, onCharacteristic = Some 8,
                     batteryCharacteristic = Some 9\<rparr>\<rparr>))))) = Resolved True
   \<and> snd (snd (getOn (fst (lifetime [(True, GetBatteryLevel GetRejects), (True, GetOn)]
      (fst (setOn True True SetRejects
      (new_VacuumAccessory \<lparr>displayName = ''Robot Vacuum'', UUID = ''u'',
         context' = \<lparr>accessoryAid = Some 5, onCharacteristic = Some 8,
                     batteryCharacteristic = Some 9\<rparr>\<rparr>))))))) = Resolved True
   \<and> snd (snd (getOn (fst (setOn False True SetResolves
      (new_VacuumAccessory \<lparr>displayName = ''Robot Vacuum'', UUID = ''u'',
         context' = \<lparr>accessoryAid = Some 5, onCharacteristic = None,
                     batteryCharacteristic = Some 9\<rparr>\<rparr>))))) = Resolved True"
  using setOn_then_getOn [of True True "new_VacuumAccessory \<lparr>displayName = ''Robot Vacuum'', UUID = ''u'',
         context' = \<lparr>accessoryAid = Some 5, onCharacteristic = Some 8,
                     batteryCharacteristic = Some 9\<rparr>\<rparr>" SetRejects
         "[(True, GetBatteryLevel GetRejects), (True, GetOn)]"]
  by (simp add: proxy_defs)







section \<open>The characteristic proxy: degraded reads and writes\<close>

text \<open>
  C8: \<open>getBatteryLevel\<close> always resolves with a value. A new proxy caches \<open>100\<close>. With an
  unresolved address or no client it resolves with the cached level, unchanged, after a
  warning and without a remote call. Otherwise, when the remote get resolves and its first
  entry holds a number, that number is stored and returned; when the get rejects, resolves
  with no entry or with a first entry that holds no number, the cache is left as it was and
  its value is returned.
\<close>

theorem getBatteryLevel_total:
  "(\<exists>v. snd (snd (getBatteryLevel client outcome this)) = Resolved v)
   \<and> lastBatteryLevel (new_VacuumAccessory acc) = 100
   \<and> (\<not> truthy (accessoryAid (context' (accessory this)))
        \<or> \<not> truthy (batteryCharacteristic (context' (accessory this))) \<or> \<not> client \<longrightarrow>
      getBatteryLevel client outcome this = (this, [Log Warn], Resolved (lastBatteryLevel this)))
   \<and> (truthy (accessoryAid (context' (accessory this)))
        \<and> truthy (batteryCharacteristic (context' (accessory this))) \<and> client \<longrightarrow>
      (\<forall>n rest. outcome = GetResolves (JNumber n # rest) \<longrightarrow>
         fst (getBatteryLevel client outcome this) = this\<lparr>lastBatteryLevel := n\<rparr>
         \<and> snd (snd (getBatteryLevel client outcome this)) = Resolved n)
      \<and> (outcome = GetRejects \<or> outcome = GetResolves []
           \<or> (\<exists>rest. outcome = GetResolves (JOther # rest)) \<longrightarrow>
         fst (getBatteryLevel client outcome this) = this
         \<and> snd (snd (getBatteryLevel client outcome this)) = Resolved (lastBatteryLevel this)))"
  by (auto simp: getBatteryLevel_def getBatteryLevel_try_def firstValue_def new_VacuumAccessory_def
      split: get_outcome.split js_value.split list.split)

theorem getBatteryLevel_total_witness:
  "getBatteryLevel True GetRejects
      (new_VacuumAccessory \<lparr>displayName = ''Robot Vacuum'', UUID = ''u'',
         context' = \<lparr>accessoryAid = Some 5, onCharacteristic = Some 8,
                     batteryCharacteristic = None\<rparr>\<rparr>)
     = (new_VacuumAccessory \<lparr>displayName = ''Robot Vacuum'', UUID = ''u'',
         context' = \<lparr>accessoryAid = Some 5, onCharacteristic = Some 8,
                     batteryCharacteristic = None\<rparr>\<rparr>, [Log Warn], Resolved 100)
   \<and> snd (snd (getBatteryLevel True (GetResolves [JNumber 42])
      (new_VacuumAccessory \<lparr>displayName = ''Robot Vacuum'', UUID = ''u'',
         context' = \<lparr>accessoryAid = Some 5, onCharacteristic = Some 8,
                     batteryCharacteristic = Some 9\<rparr>\<rparr>))) = Resolved 42
   \<and> snd (snd (getBatteryLevel True GetRejects
      (fst (getBatteryLevel True (GetResolves [JNumber 42])
      (new_VacuumAccessory \<lparr>displayName = ''Robot Vacuum'', UUID = ''u'',
         context' = \<lparr>accessoryAid = Some 5, onCharacteristic = Some 8,
                     batteryCharacteristic = Some 9\<rparr>\<rparr>))))) = Resolved 42"
  using getBatteryLevel_total [of True GetRejects
      "new_VacuumAccessory \<lparr>displayName = ''Robot Vacuum'', UUID = ''u'',
         context' = \<lparr>accessoryAid = Some 5, onCharacteristic = Some 8,
                     batteryCharacteristic = None\<rparr>\<rparr>"]
  by (simp add: proxy_defs)

text \<open>
  C10: the addresses are tested by truthiness, so an \<open>accessoryAid\<close> or an \<open>iid\<close> of \<open>0\<close> in the
  context has the same effect as an absent one. \<open>setOn\<close> stores the value, warns and issues no
  remote set; \<open>getBatteryLevel\<close> warns and resolves with the cached level without a remote get.
\<close>

theorem zero_address_treated_as_unresolved:
  "(accessoryAid (context' (accessory this)) \<in> {None, Some 0}
      \<or> onCharacteristic (context' (accessory this)) \<in> {None, Some 0} \<longrightarrow>
      setOn client b outcome this = (this\<lparr>lastOnState := b\<rparr>, [Log Info, Log Warn], Resolved ()))
   \<and> (accessoryAid (context' (accessory this)) \<in> {None, Some 0}
      \<or> batteryCharacteristic (context' (accessory this)) \<in> {None, Some 0} \<longrightarrow>
      getBatteryLevel client outcome' this = (this, [Log Warn], Resolved (lastBatteryLevel this)))"
  by (auto simp: setOn_def setOn_begin_def getBatteryLevel_def getBatteryLevel_try_def truthy_def)

theorem zero_address_treated_as_unresolved_witness:
  "setOn True True SetResolves
      (new_VacuumAccessory \<lparr>displayName = ''Robot Vacuum'', UUID = ''u'',
         context' = \<lparr>accessoryAid = Some 5, onCharacteristic = Some 0,
                     batteryCharacteristic = Some 0\<rparr>\<rparr>)
     = (\<lparr>accessory = \<lparr>displayName = ''Robot Vacuum'', UUID = ''u'',
         context' = \<lparr>accessoryAid = Some 5, onCharacteristic = Some 0,
                     batteryCharacteristic = Some 0\<rparr>\<rparr>, lastOnState = True,
         lastBatteryLevel = 100\<rparr>, [Log Info, Log Warn], Resolved ())
   \<and> getBatteryLevel True (GetResolves [JNumber 42])
      (new_VacuumAccessory \<lparr>displayName = ''Robot Vacuum'', UUID = ''u'',
         context' = \<lparr>accessoryAid = Some 5, onCharacteristic = Some 0,
                     batteryCharacteristic = Some 0\<rparr>\<rparr>)
     = (new_VacuumAccessory \<lparr>displayName = ''Robot Vacuum'', UUID = ''u'',
         context' = \<lparr>accessoryAid = Some 5, onCharacteristic = Some 0,
                     batteryCharacteristic = Some 0\<rparr>\<rparr>, [Log Warn], Resolved 100)"
  using zero_address_treated_as_unresolved [of
      "new_VacuumAccessory \<lparr>displayName = ''Robot Vacuum'', UUID = ''u'',
         context' = \<lparr>accessoryAid = Some 5, onCharacteristic = Some 0,
                     batteryCharacteristic = Some 0\<rparr>\<rparr>" True True SetResolves "GetResolves [JNumber 42]"]
  by (simp add: proxy_defs)

section \<open>The characteristic proxy: its addresses over its lifetime\<close>

lemma handler_accessory: "accessory (fst (handler client c this)) = accessory this"
  by (cases c)
     (auto simp: setOn_def setOn_begin_def setOn_resume_def getOn_def getBatteryLevel_def
        getBatteryLevel_try_def
        split: set_outcome.split get_outcome.split js_value.split)

lemma handler_no_set:
  "\<not> truthy (accessoryAid (context' (accessory this)))
     \<or> \<not> truthy (onCharacteristic (context' (accessory this))) \<Longrightarrow>
   SetCharacteristics target \<notin> set (snd (handler client c this))"
  by (cases c)
     (auto simp: setOn_def setOn_begin_def setOn_resume_def getOn_def getBatteryLevel_def
        getBatteryLevel_try_def
        split: set_outcome.split get_outcome.split js_value.split)

lemma handler_no_get:
  "\<not> truthy (accessoryAid (context' (accessory this)))
     \<or> \<not> truthy (batteryCharacteristic (context' (accessory this))) \<Longrightarrow>
   GetCharacteristics ids \<notin> set (snd (handler client c this))"
  by (cases c)
     (auto simp: setOn_def setOn_begin_def setOn_resume_def getOn_def getBatteryLevel_def
        getBatteryLevel_try_def
        split: set_outcome.split get_outcome.split js_value.split)

lemma lifetime_accessory: "accessory (fst (lifetime calls this)) = accessory this"
proof (induction calls arbitrary: this)
  case Nil
  show ?case by simp
next
  case (Cons cc calls)
  obtain client c where cc: "cc = (client, c)" by (cases cc)
  show ?case unfolding cc lifetime_Cons
    by (simp add: Cons.IH handler_accessory)
qed

lemma lifetime_no_set:
  "\<not> truthy (accessoryAid (context' (accessory this)))
     \<or> \<not> truthy (onCharacteristic (context' (accessory this))) \<Longrightarrow>
   SetCharacteristics target \<notin> set (snd (lifetime calls this))"
proof (induction calls arbitrary: this)
  case Nil
  show ?case by simp
next
  case (Cons cc calls)
  obtain client c where cc: "cc = (client, c)" by (cases cc)
  have "SetCharacteristics target \<notin> set (snd (handler client c this))"
    using Cons.prems by (rule handler_no_set)
  moreover have "SetCharacteristics target \<notin> set (snd (lifetime calls (fst (handler client c this))))"
    using Cons.prems by (intro Cons.IH) (simp add: handler_accessory)
  ultimately show ?case unfolding cc lifetime_Cons by simp
qed

lemma lifetime_no_get:
  "\<not> truthy (accessoryAid (context' (accessory this)))
     \<or> \<not> truthy (batteryCharacteristic (context' (accessory this))) \<Longrightarrow>
   GetCharacteristics ids \<notin> set (snd (lifetime calls this))"
proof (induction calls arbitrary: this)
  case Nil
  show ?case by simp
next
  case (Cons cc calls)
  obtain client c where cc: "cc = (client, c)" by (cases cc)
  have "GetCharacteristics ids \<notin> set (snd (handler client c this))"
    using Cons.prems by (rule handler_no_get)
  moreover have "GetCharacteristics ids \<notin> set (snd (lifetime calls (fst (handler client c this))))"
    using Cons.prems by (intro Cons.IH) (simp add: handler_accessory)
  ultimately show ?case unfolding cc lifetime_Cons by simp
qed

text \<open>
  C4: no handler call writes the accessory's context (in the whole program only
  \<open>discoverDevices\<close> does, and it constructs a new proxy in the same pass), so through any
  sequence of handler calls on one proxy instance the addresses it reads stay what they were. An instance whose
  \<open>accessoryAid\<close> or \<open>onCharacteristic\<close> is missing never issues a remote set, and one whose
  \<open>accessoryAid\<close> or \<open>batteryCharacteristic\<close> is missing never issues a remote get, whatever
  the calls, the client's presence and the remote side's answers are.
\<close>

theorem degraded_for_the_whole_lifetime:
  "context' (accessory (fst (lifetime calls this))) = context' (accessory this)
   \<and> (\<not> truthy (accessoryAid (context' (accessory this)))
        \<or> \<not> truthy (onCharacteristic (context' (accessory this))) \<longrightarrow>
      (\<forall>target. SetCharacteristics target \<notin> set (snd (lifetime calls this))))
   \<and> (\<not> truthy (accessoryAid (context' (accessory this)))
        \<or> \<not> truthy (batteryCharacteristic (context' (accessory this))) \<longrightarrow>
      (\<forall>ids. GetCharacteristics ids \<notin> set (snd (lifetime calls this))))"
  using lifetime_accessory [of calls this] lifetime_no_set [of this _ calls]
    lifetime_no_get [of this _ calls] by auto

theorem degraded_for_the_whole_lifetime_witness:
  "snd (lifetime [(True, SetOn True SetResolves), (True, GetBatteryLevel (GetResolves [JNumber 42])),
                  (True, GetOn), (True, SetOn False SetRejects)]
      (new_VacuumAccessory \<lparr>displayName = ''Robot Vacuum'', UUID = ''u'',
         context' = \<lparr>accessoryAid = Some 5, onCharacteristic = None,
                     batteryCharacteristic = Some 9\<rparr>\<rparr>))
    = [Log Info, Log Warn, GetCharacteristics [''5.9''], Log Info, Log Warn]
   \<and> context' (accessory (fst (lifetime [(True, SetOn True SetResolves), (True, GetBatteryLevel (GetResolves [JNumber 42])),
                  (True, GetOn), (True, SetOn False SetRejects)]
      (new_VacuumAccessory \<lparr>displayName = ''Robot Vacuum'', UUID = ''u'',
         context' = \<lparr>accessoryAid = Some 5, onCharacteristic = None,
                     batteryCharacteristic = Some 9\<rparr>\<rparr>))))
    = \<lparr>accessoryAid = Some 5, onCharacteristic = None, batteryCharacteristic = Some 9\<rparr>"
  using degraded_for_the_whole_lifetime [of "[(True, SetOn True SetResolves), (True, GetBatteryLevel (GetResolves [JNumber 42])),
                  (True, GetOn), (True, SetOn False SetRejects)]"
      "new_VacuumAccessory \<lparr>displayName = ''Robot Vacuum'', UUID = ''u'',
         context' = \<lparr>accessoryAid = Some 5, onCharacteristic = None,
                     batteryCharacteristic = Some 9\<rparr>\<rparr>"]
  by (simp add: proxy_defs)

section \<open>C9: duplicates of a characteristic code\<close>

lemma scanCharacteristics_no_match:
  "\<forall>c \<in> set cs. \<not> endsWithShort (ch_type c) code \<Longrightarrow> scanCharacteristics code cs captured = captured"
  by (induction cs arbitrary: captured) auto

lemma scanCharacteristics_append:
  "scanCharacteristics code (cs @ cs') captured =
     scanCharacteristics code cs' (scanCharacteristics code cs captured)"
  by (induction cs arbitrary: captured) auto

lemma scanCharacteristics_last:
  assumes "endsWithShort (ch_type ch) code"
    and "\<forall>c \<in> set cs'. \<not> endsWithShort (ch_type c) code"
  shows "scanCharacteristics code (cs @ ch # cs') captured = Some (iid ch)"
  using assms by (simp add: scanCharacteristics_append scanCharacteristics_no_match)

lemma extractCharacteristics_append:
  "extractCharacteristics (ss @ ss') p = extractCharacteristics ss' (extractCharacteristics ss p)"
proof (induction ss arbitrary: p)
  case Nil
  show ?case by (cases p) simp
next
  case (Cons s ss)
  show ?case by (cases p) (simp add: Cons.IH)
qed

lemma extractCharacteristics_fst_unchanged:
  "\<forall>s \<in> set ss. endsWithShort (svc_type s) ''49'' \<longrightarrow>
       (\<forall>c \<in> set (characteristics s). \<not> endsWithShort (ch_type c) ''25'') \<Longrightarrow>
   fst (extractCharacteristics ss (onCh, batteryCh)) = onCh"
  by (induction ss arbitrary: onCh batteryCh) (auto simp: scanCharacteristics_no_match)

lemma not_switch_and_battery:
  "\<not> (endsWithShort t ''49'' \<and> endsWithShort t ''96'')"
  by (auto simp: endsWithShort_letterFree codes_letterFree suffix_def)

lemma extractCharacteristics_snd_unchanged:
  "\<forall>s \<in> set ss. endsWithShort (svc_type s) ''96'' \<longrightarrow>
       (\<forall>c \<in> set (characteristics s). \<not> endsWithShort (ch_type c) ''68'') \<Longrightarrow>
   snd (extractCharacteristics ss (onCh, batteryCh)) = batteryCh"
  by (induction ss arbitrary: onCh batteryCh) (auto simp: scanCharacteristics_no_match)

text \<open>
  C9 says that the \<open>iid\<close> captured for a code is the last one of a matching service that
  holds the code twice. The capture is one variable for the whole accessory: a later service
  of the same type overwrites it again. Here the first Switch service holds the On code
  twice (\<open>iid\<close> 1 and 2), a second Switch service holds it once (\<open>iid\<close> 3), and 3 is captured.
\<close>

theorem later_service_overwrites_counterexample:
  "findCandidate
     [\<lparr>aid = 5, services = Some
        [\<lparr>svc_type = ''49'', name = None, characteristics =
            [\<lparr>ch_type = ''25'', iid = 1\<rparr>, \<lparr>ch_type = ''25'', iid = 2\<rparr>]\<rparr>,
         \<lparr>svc_type = ''49'', name = None, characteristics = [\<lparr>ch_type = ''25'', iid = 3\<rparr>]\<rparr>,
         \<lparr>svc_type = ''96'', name = None, characteristics = [\<lparr>ch_type = ''68'', iid = 4\<rparr>]\<rparr>]\<rparr>]
   = Some \<lparr>aid = 5, services = Some
        [\<lparr>svc_type = ''49'', name = None, characteristics =
            [\<lparr>ch_type = ''25'', iid = 1\<rparr>, \<lparr>ch_type = ''25'', iid = 2\<rparr>]\<rparr>,
         \<lparr>svc_type = ''49'', name = None, characteristics = [\<lparr>ch_type = ''25'', iid = 3\<rparr>]\<rparr>,
         \<lparr>svc_type = ''96'', name = None, characteristics = [\<lparr>ch_type = ''68'', iid = 4\<rparr>]\<rparr>]\<rparr>
   \<and> extractCharacteristics
        [\<lparr>svc_type = ''49'', name = None, characteristics =
            [\<lparr>ch_type = ''25'', iid = 1\<rparr>, \<lparr>ch_type = ''25'', iid = 2\<rparr>]\<rparr>,
         \<lparr>svc_type = ''49'', name = None, characteristics = [\<lparr>ch_type = ''25'', iid = 3\<rparr>]\<rparr>,
         \<lparr>svc_type = ''96'', name = None, characteristics = [\<lparr>ch_type = ''68'', iid = 4\<rparr>]\<rparr>]
        (None, None)
     = (Some 3, Some 4)
   \<and> fst (extractCharacteristics
        [\<lparr>svc_type = ''49'', name = None, characteristics =
            [\<lparr>ch_type = ''25'', iid = 1\<rparr>, \<lparr>ch_type = ''25'', iid = 2\<rparr>]\<rparr>,
         \<lparr>svc_type = ''49'', name = None, characteristics = [\<lparr>ch_type = ''25'', iid = 3\<rparr>]\<rparr>,
         \<lparr>svc_type = ''96'', name = None, characteristics = [\<lparr>ch_type = ''68'', iid = 4\<rparr>]\<rparr>]
        (None, None))
     \<noteq> Some (iid \<lparr>ch_type = ''25'', iid = 2\<rparr>)"
  by (simp add: hasSwitch_def hasBattery_def servicesOrEmpty_def string_eval)

text \<open>
  C9 as amended: within the services scanned, when a service of the Switch type holds a
  characteristic of the On code that no characteristic of that code follows in the service,
  and no later Switch service holds a characteristic of the On code at all, the \<open>iid\<close>
  captured for On is that characteristic's, whatever was captured before; and the same for
  the Battery type with the BatteryLevel code.
\<close>

theorem last_duplicate_wins:
  assumes "ss = before @ svc # after"
    and "characteristics svc = cs @ ch # cs'"
  shows "(endsWithShort (svc_type svc) ''49'' \<and> endsWithShort (ch_type ch) ''25''
          \<and> (\<forall>c \<in> set cs'. \<not> endsWithShort (ch_type c) ''25'')
          \<and> (\<forall>s \<in> set after. endsWithShort (svc_type s) ''49'' \<longrightarrow>
                (\<forall>c \<in> set (characteristics s). \<not> endsWithShort (ch_type c) ''25''))
          \<longrightarrow> fst (extractCharacteristics ss start) = Some (iid ch))
       \<and> (endsWithShort (svc_type svc) ''96'' \<and> endsWithShort (ch_type ch) ''68''
          \<and> (\<forall>c \<in> set cs'. \<not> endsWithShort (ch_type c) ''68'')
          \<and> (\<forall>s \<in> set after. endsWithShort (svc_type s) ''96'' \<longrightarrow>
                (\<forall>c \<in> set (characteristics s). \<not> endsWithShort (ch_type c) ''68''))
          \<longrightarrow> snd (extractCharacteristics ss start) = Some (iid ch))"
proof -
  obtain onCh batteryCh where mid: "extractCharacteristics before start = (onCh, batteryCh)"
    by (cases "extractCharacteristics before start")
  have split: "extractCharacteristics ss start = extractCharacteristics (svc # after) (onCh, batteryCh)"
    by (simp add: assms(1) extractCharacteristics_append mid)
  have switch: "fst (extractCharacteristics ss start) = Some (iid ch)"
    if "endsWithShort (svc_type svc) ''49''" "endsWithShort (ch_type ch) ''25''"
      "\<forall>c \<in> set cs'. \<not> endsWithShort (ch_type c) ''25''"
      "\<forall>s \<in> set after. endsWithShort (svc_type s) ''49'' \<longrightarrow>
                (\<forall>c \<in> set (characteristics s). \<not> endsWithShort (ch_type c) ''25'')"
    using that
    by (simp add: split assms(2) scanCharacteristics_last extractCharacteristics_fst_unchanged)
  have battery: "snd (extractCharacteristics ss start) = Some (iid ch)"
    if "endsWithShort (svc_type svc) ''96''" "endsWithShort (ch_type ch) ''68''"
      "\<forall>c \<in> set cs'. \<not> endsWithShort (ch_type c) ''68''"
      "\<forall>s \<in> set after. endsWithShort (svc_type s) ''96'' \<longrightarrow>
                (\<forall>c \<in> set (characteristics s). \<not> endsWithShort (ch_type c) ''68'')"
  proof -
    have "\<not> endsWithShort (svc_type svc) ''49''"
      using that(1) not_switch_and_battery [of "svc_type svc"] by simp
    with that show ?thesis
      by (simp add: split assms(2) scanCharacteristics_last extractCharacteristics_snd_unchanged)
  qed
  from switch battery show ?thesis by blast
qed

theorem last_duplicate_wins_witness:
  "endsWithShort ''49'' ''49'' \<and> endsWithShort ''25'' ''25'' \<and> \<not> endsWithShort ''23'' ''25''
   \<and> endsWithShort ''96'' ''96'' \<and> endsWithShort ''68'' ''68'' \<and> \<not> endsWithShort ''96'' ''49''
   \<and> extractCharacteristics
        [\<lparr>svc_type = ''49'', name = None, characteristics =
            [\<lparr>ch_type = ''25'', iid = 7\<rparr>, \<lparr>ch_type = ''25'', iid = 8\<rparr>, \<lparr>ch_type = ''23'', iid = 6\<rparr>]\<rparr>,
         \<lparr>svc_type = ''96'', name = None, characteristics =
            [\<lparr>ch_type = ''68'', iid = 9\<rparr>, \<lparr>ch_type = ''68'', iid = 10\<rparr>]\<rparr>]
        (None, None)
     = (Some 8, Some 10)"
  using last_duplicate_wins [of
      "[\<lparr>svc_type = ''49'', name = None, characteristics =
            [\<lparr>ch_type = ''25'', iid = 7\<rparr>, \<lparr>ch_type = ''25'', iid = 8\<rparr>, \<lparr>ch_type = ''23'', iid = 6\<rparr>]\<rparr>,
         \<lparr>svc_type = ''96'', name = None, characteristics =
            [\<lparr>ch_type = ''68'', iid = 9\<rparr>, \<lparr>ch_type = ''68'', iid = 10\<rparr>]\<rparr>]"
      "[]"
      "\<lparr>svc_type = ''49'', name = None, characteristics =
            [\<lparr>ch_type = ''25'', iid = 7\<rparr>, \<lparr>ch_type = ''25'', iid = 8\<rparr>, \<lparr>ch_type = ''23'', iid = 6\<rparr>]\<rparr>"
      "[\<lparr>svc_type = ''96'', name = None, characteristics =
            [\<lparr>ch_type = ''68'', iid = 9\<rparr>, \<lparr>ch_type = ''68'', iid = 10\<rparr>]\<rparr>]"
      "[\<lparr>ch_type = ''25'', iid = 7\<rparr>]" "\<lparr>ch_type = ''25'', iid = 8\<rparr>" "[\<lparr>ch_type = ''23'', iid = 6\<rparr>]"
      "(None, None)"]
  by (simp add: string_eval)

section \<open>The reconciliation pass: what it stores and what it removes\<close>

lemma removeStale_Cons:
  "removeStale discovered ((ident, acc) # rest) registry =
     (if ident \<notin> set discovered then
        (fst (removeStale discovered rest (AList.delete ident registry)),
         Log Info # UnregisterPlatformAccessories acc #
           snd (removeStale discovered rest (AList.delete ident registry)))
      else removeStale discovered rest registry)"
  by (simp split: prod.split)

declare removeStale.simps(2) [simp del]

lemma removeStale_fst:
  "fst (removeStale discovered entries registry) =
     filter (\<lambda>(k, _). k \<in> set discovered \<or> k \<notin> fst ` set entries) registry"
proof (induction entries arbitrary: registry)
  case Nil
  show ?case by simp
next
  case (Cons entry entries)
  obtain ident acc where entry: "entry = (ident, acc)" by (cases entry)
  show ?case
  proof (cases "ident \<in> set discovered")
    case True
    have "filter (\<lambda>(k, _). k \<in> set discovered \<or> k \<notin> fst ` set entries) registry =
          filter (\<lambda>(k, _). k \<in> set discovered \<or> k \<notin> fst ` set (entry # entries)) registry"
      using True by (intro filter_cong) (auto simp: entry)
    with True show ?thesis by (simp add: entry removeStale_Cons Cons.IH)
  next
    case False
    have "filter (\<lambda>(k, _). k \<in> set discovered \<or> k \<notin> fst ` set entries)
            (AList.delete ident registry) =
          filter (\<lambda>(k, _). k \<in> set discovered \<or> k \<notin> fst ` set (entry # entries)) registry"
      unfolding AList.delete_eq filter_filter
      using False by (intro filter_cong) (auto simp: entry)
    with False show ?thesis by (simp add: entry removeStale_Cons Cons.IH)
  qed
qed

lemma removeStale_unregistered:
  "unregistered (snd (removeStale discovered entries registry)) =
     map snd (filter (\<lambda>(k, _). k \<notin> set discovered) entries)"
  by (induction entries arbitrary: registry) (auto simp: removeStale_Cons)

lemma removeStale_registered:
  "registered (snd (removeStale discovered entries registry)) = []"
  by (induction entries arbitrary: registry) (auto simp: removeStale_Cons)

lemma removeStale_self:
  "fst (removeStale discovered registry registry) =
     filter (\<lambda>(k, _). k \<in> set discovered) registry"
  unfolding removeStale_fst by (intro filter_cong) force+

lemma unregistered_append: "unregistered (xs @ ys) = unregistered xs @ unregistered ys"
  by (induction xs rule: unregistered.induct) auto

lemma registered_append: "registered (xs @ ys) = registered xs @ registered ys"
  by (induction xs rule: registered.induct) auto


lemma restoreOrAdd_fst:
  "fst (restoreOrAdd uuid newName ctx registry) =
     AList.update uuid (storedAccessory uuid newName ctx registry) registry"
  by (simp add: restoreOrAdd_def storedAccessory_def split: option.split)

lemma restoreOrAdd_unregistered:
  "unregistered (snd (restoreOrAdd uuid newName ctx registry)) = []"
  by (simp add: restoreOrAdd_def split: option.split)

lemma restoreOrAdd_registered:
  "registered (snd (restoreOrAdd uuid newName ctx registry)) =
     (if map_of registry uuid = None then [storedAccessory uuid newName ctx registry] else [])"
  by (auto simp add: restoreOrAdd_def storedAccessory_def split: option.split)

lemma storedAccessory_context [simp]:
  "context' (storedAccessory uuid newName ctx registry) = ctx"
  by (simp add: storedAccessory_def split: option.split)

lemma discoverDevices_early:
  "\<not> httpClient this \<or> bridgeAccessories this = []
     \<or> findCandidate (bridgeAccessories this) = None \<Longrightarrow>
   discoverDevices generate this = (this, [Log Warn])"
  by (auto simp: discoverDevices_def)

lemma findCandidate_nonempty: "findCandidate graph = Some a \<Longrightarrow> graph \<noteq> []"
  by (cases graph) auto

lemma discoverDevices_matched:
  assumes "httpClient this" and "findCandidate (bridgeAccessories this) = Some candidate"
  shows "discoverDevices generate this =
    (this\<lparr>accessories :=
            fst (removeStale (discoveredCacheUUIDs this @ [derivedIdentifier generate candidate])
                  (fst (restoreOrAdd (derivedIdentifier generate candidate)
                         (candidateDisplayName candidate) (matchedContext candidate)
                         (accessories this)))
                  (fst (restoreOrAdd (derivedIdentifier generate candidate)
                         (candidateDisplayName candidate) (matchedContext candidate)
                         (accessories this)))),
          discoveredCacheUUIDs :=
            discoveredCacheUUIDs this @ [derivedIdentifier generate candidate]\<rparr>,
     (if \<not> truthy (onCharacteristic (matchedContext candidate)) then [Log Warn] else []) @
     (if \<not> truthy (batteryCharacteristic (matchedContext candidate)) then [Log Warn] else []) @
     snd (restoreOrAdd (derivedIdentifier generate candidate)
            (candidateDisplayName candidate) (matchedContext candidate) (accessories this)) @
     snd (removeStale (discoveredCacheUUIDs this @ [derivedIdentifier generate candidate])
            (fst (restoreOrAdd (derivedIdentifier generate candidate)
                   (candidateDisplayName candidate) (matchedContext candidate)
                   (accessories this)))
            (fst (restoreOrAdd (derivedIdentifier generate candidate)
                   (candidateDisplayName candidate) (matchedContext candidate)
                   (accessories this)))))"
  using assms findCandidate_nonempty [OF assms(2)]
  by (simp add: discoverDevices_def split: prod.split)

lemma filter_update_other:
  "\<not> p k \<Longrightarrow>
   filter (\<lambda>(k', _). p k') (AList.update k v registry) = filter (\<lambda>(k', _). p k') registry"
  by (induction registry) auto

lemma filter_update_stale:
  "filter (\<lambda>(k', _). k' \<noteq> k \<and> q k') (AList.update k v registry) =
   filter (\<lambda>(k', _). k' \<noteq> k \<and> q k') registry"
  using filter_update_other [of "\<lambda>k'. k' \<noteq> k \<and> q k'" k v registry] by simp

lemma filter_update_same:
  "distinct (map fst registry) \<Longrightarrow>
   filter (\<lambda>(k', _). k' = k) (AList.update k v registry) = [(k, v)]"
proof (induction registry)
  case Nil
  show ?case by simp
next
  case (Cons entry registry)
  obtain k' v' where entry: "entry = (k', v')" by (cases entry)
  show ?case
  proof (cases "k' = k")
    case True
    with Cons.prems have "k \<notin> fst ` set registry" by (simp add: entry)
    then have "filter (\<lambda>(k', _). k' = k) registry = []"
      by (force simp: filter_empty_conv)
    with True show ?thesis by (simp add: entry)
  next
    case False
    with Cons show ?thesis by (simp add: entry)
  qed
qed

lemma map_of_filter_key:
  "map_of (filter (\<lambda>(k', _). p k') registry) k = (if p k then map_of registry k else None)"
  by (induction registry) auto

text \<open>What a pass that reaches the match leaves behind and what it unregisters.\<close>

lemma discoverDevices_matched_accessories:
  assumes "httpClient this" and "findCandidate (bridgeAccessories this) = Some candidate"
  shows "accessories (fst (discoverDevices generate this)) =
     filter (\<lambda>(k, _). k \<in> set (discoveredCacheUUIDs this @ [derivedIdentifier generate candidate]))
       (AList.update (derivedIdentifier generate candidate)
          (storedAccessory (derivedIdentifier generate candidate) (candidateDisplayName candidate)
             (matchedContext candidate) (accessories this))
          (accessories this))"
  by (simp add: discoverDevices_matched [OF assms] removeStale_self restoreOrAdd_fst)

lemma discoverDevices_matched_unregistered:
  assumes "httpClient this" and "findCandidate (bridgeAccessories this) = Some candidate"
  shows "unregistered (snd (discoverDevices generate this)) =
     map snd (filter (\<lambda>(k, _). k \<notin> set (discoveredCacheUUIDs this @ [derivedIdentifier generate candidate]))
       (accessories this))"
  by (simp add: discoverDevices_matched [OF assms] unregistered_append removeStale_unregistered
      restoreOrAdd_unregistered restoreOrAdd_fst filter_update_stale)

lemma discoverDevices_matched_registered:
  assumes "httpClient this" and "findCandidate (bridgeAccessories this) = Some candidate"
  shows "registered (snd (discoverDevices generate this)) =
     (if map_of (accessories this) (derivedIdentifier generate candidate) = None
      then [storedAccessory (derivedIdentifier generate candidate) (candidateDisplayName candidate)
             (matchedContext candidate) (accessories this)]
      else [])"
  by (simp add: discoverDevices_matched [OF assms] registered_append removeStale_registered
      restoreOrAdd_registered)

lemma discoverDevices_graph:
  "bridgeAccessories (fst (discoverDevices generate this)) = bridgeAccessories this
   \<and> httpClient (fst (discoverDevices generate this)) = httpClient this"
  by (simp add: discoverDevices_def split: option.split prod.split)

lemma keys_filter:
  "fst ` set (filter (\<lambda>(k, _). p k) registry) = {k \<in> fst ` set registry. p k}"
  by (induction registry) auto

text \<open>The facts that evaluate the platform on a concrete state.\<close>

lemmas platform_eval =
  discoverDevices_def connectToBridge_def configureAccessory_def new_HACompositePlatform_def
  hasSwitch_def hasBattery_def servicesOrEmpty_def matchedContext_def derivedIdentifier_def
  sampleGenerate_def String_nat.simps restoreOrAdd_def storedAccessory_def removeStale_Cons
  candidateDisplayName_def truthy_def truthy_string_def registry_ok_def

section \<open>C1: retirement\<close>

lemma registry_ok_distinct_values: "registry_ok registry \<Longrightarrow> distinct (map snd registry)"
proof (induction registry)
  case Nil
  show ?case by simp
next
  case (Cons entry registry)
  obtain k a where entry: "entry = (k, a)" by (cases entry)
  from Cons.prems have ok: "registry_ok registry" and k: "k \<notin> fst ` set registry"
    and a: "UUID a = k" and all: "list_all (\<lambda>(ident, acc). UUID acc = ident) registry"
    by (auto simp: registry_ok_def entry)
  have "a \<notin> snd ` set registry"
  proof
    assume "a \<in> snd ` set registry"
    then obtain k' where in_reg: "(k', a) \<in> set registry" by auto
    with all have "UUID a = k'" by (auto simp: list_all_iff)
    with a in_reg k show False by force
  qed
  with Cons.IH [OF ok] show ?case by (simp add: entry)
qed

lemma registry_ok_key: "registry_ok registry \<Longrightarrow> (k, a) \<in> set registry \<Longrightarrow> UUID a = k"
  by (auto simp: registry_ok_def list_all_iff)

lemma count_list_distinct: "distinct xs \<Longrightarrow> x \<in> set xs \<Longrightarrow> count_list xs x = 1"
  by (induction xs) (auto simp: count_list_0_iff)

text \<open>
  C1 says a cycle with an empty candidate set retires every accessory registered before.
  \<open>discoverDevices\<close> returns before its removal loop when there is no client, no remote
  accessory or no matching accessory. Here an accessory restored from the cache survives a
  cycle whose bridge configuration lacks \<open>pairingData\<close>: nothing is unregistered.
\<close>

theorem discoverDevices_without_client_counterexample:
  "discoverDevices sampleGenerate
     (fst (connectToBridge
        (Some \<lparr>controller_id = Some ''AA:BB:CC:DD:EE:FF'', address = Some ''192.168.1.20'',
               port = Some 21063, pairingData = None\<rparr>)
        (GetAccessoriesResolves [])
        (fst (configureAccessory
           \<lparr>displayName = ''Robot Vacuum'', UUID = ''uuid-5'',
             context' = \<lparr>accessoryAid = Some 5, onCharacteristic = Some 8,
                         batteryCharacteristic = Some 9\<rparr>\<rparr>
           new_HACompositePlatform))))
   = (\<lparr>accessories =
          [(''uuid-5'', \<lparr>displayName = ''Robot Vacuum'', UUID = ''uuid-5'',
             context' = \<lparr>accessoryAid = Some 5, onCharacteristic = Some 8,
                         batteryCharacteristic = Some 9\<rparr>\<rparr>)],
        discoveredCacheUUIDs = [], bridgeAccessories = [], httpClient = False\<rparr>,
      [Log Warn])"
  by (simp add: platform_eval)

text \<open>
  C1 as amended. A cycle with no client, no remote accessory or no matching accessory
  returns at once, with the registry as it was and nothing unregistered. In a cycle that
  reaches the match, with a registry that holds every key once and every accessory under
  its own identifier: an accessory whose identifier is neither the one derived from the
  matched \<open>aid\<close> nor among the identifiers already in \<open>discoveredCacheUUIDs\<close> is removed from
  the registry and unregistered exactly once; any other accessory of the registry stays and
  is not unregistered.
\<close>

theorem discoverDevices_retirement:
  "(\<not> httpClient this \<or> bridgeAccessories this = []
      \<or> findCandidate (bridgeAccessories this) = None \<longrightarrow>
      discoverDevices generate this = (this, [Log Warn]))
   \<and> (registry_ok (accessories this) \<and> httpClient this
      \<and> findCandidate (bridgeAccessories this) = Some candidate
      \<and> (ident, acc) \<in> set (accessories this) \<longrightarrow>
      (ident \<noteq> derivedIdentifier generate candidate \<and> ident \<notin> set (discoveredCacheUUIDs this) \<longrightarrow>
         ident \<notin> fst ` set (accessories (fst (discoverDevices generate this)))
         \<and> count_list (unregistered (snd (discoverDevices generate this))) acc = 1)
      \<and> (ident = derivedIdentifier generate candidate \<or> ident \<in> set (discoveredCacheUUIDs this) \<longrightarrow>
         ident \<in> fst ` set (accessories (fst (discoverDevices generate this)))
         \<and> count_list (unregistered (snd (discoverDevices generate this))) acc = 0))"
proof -
  have early: "discoverDevices generate this = (this, [Log Warn])"
    if "\<not> httpClient this \<or> bridgeAccessories this = []
      \<or> findCandidate (bridgeAccessories this) = None"
    using that by (rule discoverDevices_early)
  have matched:
    "(ident \<noteq> derivedIdentifier generate candidate \<and> ident \<notin> set (discoveredCacheUUIDs this) \<longrightarrow>
         ident \<notin> fst ` set (accessories (fst (discoverDevices generate this)))
         \<and> count_list (unregistered (snd (discoverDevices generate this))) acc = 1)
      \<and> (ident = derivedIdentifier generate candidate \<or> ident \<in> set (discoveredCacheUUIDs this) \<longrightarrow>
         ident \<in> fst ` set (accessories (fst (discoverDevices generate this)))
         \<and> count_list (unregistered (snd (discoverDevices generate this))) acc = 0)"
    if ok: "registry_ok (accessories this)" and client: "httpClient this"
      and found: "findCandidate (bridgeAccessories this) = Some candidate"
      and entry: "(ident, acc) \<in> set (accessories this)"
  proof -
    let ?uuid = "derivedIdentifier generate candidate"
    let ?discovered = "discoveredCacheUUIDs this @ [?uuid]"
    let ?stored = "storedAccessory ?uuid (candidateDisplayName candidate)
                     (matchedContext candidate) (accessories this)"
    have reg: "accessories (fst (discoverDevices generate this)) =
        filter (\<lambda>(k, _). k \<in> set ?discovered) (AList.update ?uuid ?stored (accessories this))"
      using client found by (rule discoverDevices_matched_accessories)
    have unreg: "unregistered (snd (discoverDevices generate this)) =
        map snd (filter (\<lambda>(k, _). k \<notin> set ?discovered) (accessories this))"
      using client found by (rule discoverDevices_matched_unregistered)
    have keys: "fst ` set (accessories (fst (discoverDevices generate this))) =
        ({?uuid} \<union> fst ` set (accessories this)) \<inter> set ?discovered"
      unfolding reg keys_filter dom_update by auto
    have dist: "distinct (unregistered (snd (discoverDevices generate this)))"
      unfolding unreg using registry_ok_distinct_values [OF ok] by (rule distinct_map_filter)
    have stale: "acc \<in> set (unregistered (snd (discoverDevices generate this)))"
      if "ident \<notin> set ?discovered"
      unfolding unreg using entry that by force
    have kept: "acc \<notin> set (unregistered (snd (discoverDevices generate this)))"
      if "ident \<in> set ?discovered"
    proof
      assume "acc \<in> set (unregistered (snd (discoverDevices generate this)))"
      then obtain k where "(k, acc) \<in> set (accessories this)" and "k \<notin> set ?discovered"
        unfolding unreg by auto
      moreover have "UUID acc = k" using ok calculation(1) by (rule registry_ok_key)
      moreover have "UUID acc = ident" using ok entry by (rule registry_ok_key)
      ultimately show False using that by simp
    qed
    show ?thesis
    proof (intro conjI impI)
      assume "ident \<noteq> ?uuid \<and> ident \<notin> set (discoveredCacheUUIDs this)"
      then show "ident \<notin> fst ` set (accessories (fst (discoverDevices generate this)))"
        unfolding keys by simp
    next
      assume "ident \<noteq> ?uuid \<and> ident \<notin> set (discoveredCacheUUIDs this)"
      then have "ident \<notin> set ?discovered" by simp
      then show "count_list (unregistered (snd (discoverDevices generate this))) acc = 1"
        using dist stale by (simp add: count_list_distinct)
    next
      assume "ident = ?uuid \<or> ident \<in> set (discoveredCacheUUIDs this)"
      then show "ident \<in> fst ` set (accessories (fst (discoverDevices generate this)))"
        unfolding keys using entry by force
    next
      assume "ident = ?uuid \<or> ident \<in> set (discoveredCacheUUIDs this)"
      then have "ident \<in> set ?discovered" by auto
      then show "count_list (unregistered (snd (discoverDevices generate this))) acc = 0"
        using kept by (simp add: count_list_0_iff)
    qed
  qed
  from early matched show ?thesis by blast
qed


theorem discoverDevices_retirement_witness:
  "registry_ok
     [(''uuid-7'', \<lparr>displayName = ''Old Vacuum'', UUID = ''uuid-7'',
         context' = \<lparr>accessoryAid = Some 7, onCharacteristic = Some 2,
                     batteryCharacteristic = Some 3\<rparr>\<rparr>),
      (''uuid-5'', \<lparr>displayName = ''Robot Vacuum'', UUID = ''uuid-5'',
         context' = \<lparr>accessoryAid = Some 5, onCharacteristic = None,
                     batteryCharacteristic = None\<rparr>\<rparr>)]
   \<and> findCandidate
        [\<lparr>aid = 5, services = Some
           [\<lparr>svc_type = ''49'', name = None, characteristics = [\<lparr>ch_type = ''25'', iid = 8\<rparr>]\<rparr>,
            \<lparr>svc_type = ''96'', name = None, characteristics = [\<lparr>ch_type = ''68'', iid = 9\<rparr>]\<rparr>]\<rparr>]
      = Some 
        (\<lparr>aid = 5, services = Some
           [\<lparr>svc_type = ''49'', name = None, characteristics = [\<lparr>ch_type = ''25'', iid = 8\<rparr>]\<rparr>,
            \<lparr>svc_type = ''96'', name = None, characteristics = [\<lparr>ch_type = ''68'', iid = 9\<rparr>]\<rparr>]\<rparr>)
   \<and> derivedIdentifier sampleGenerate 
        (\<lparr>aid = 5, services = Some
           [\<lparr>svc_type = ''49'', name = None, characteristics = [\<lparr>ch_type = ''25'', iid = 8\<rparr>]\<rparr>,
            \<lparr>svc_type = ''96'', name = None, characteristics = [\<lparr>ch_type = ''68'', iid = 9\<rparr>]\<rparr>]\<rparr>) = ''uuid-5''
   \<and> discoverDevices sampleGenerate
     \<lparr>accessories =
        [(''uuid-7'', \<lparr>displayName = ''Old Vacuum'', UUID = ''uuid-7'',
            context' = \<lparr>accessoryAid = Some 7, onCharacteristic = Some 2,
                        batteryCharacteristic = Some 3\<rparr>\<rparr>),
         (''uuid-5'', \<lparr>displayName = ''Robot Vacuum'', UUID = ''uuid-5'',
            context' = \<lparr>accessoryAid = Some 5, onCharacteristic = None,
                        batteryCharacteristic = None\<rparr>\<rparr>)],
      discoveredCacheUUIDs = [],
      bridgeAccessories =
        [\<lparr>aid = 5, services = Some
           [\<lparr>svc_type = ''49'', name = None, characteristics = [\<lparr>ch_type = ''25'', iid = 8\<rparr>]\<rparr>,
            \<lparr>svc_type = ''96'', name = None, characteristics = [\<lparr>ch_type = ''68'', iid = 9\<rparr>]\<rparr>]\<rparr>],
      httpClient = True\<rparr>
   = (\<lparr>accessories =
        [(''uuid-5'', \<lparr>displayName = ''Robot Vacuum'', UUID = ''uuid-5'',
            context' = \<lparr>accessoryAid = Some 5, onCharacteristic = Some 8,
                        batteryCharacteristic = Some 9\<rparr>\<rparr>)],
      discoveredCacheUUIDs = [''uuid-5''],
      bridgeAccessories =
        [\<lparr>aid = 5, services = Some
           [\<lparr>svc_type = ''49'', name = None, characteristics = [\<lparr>ch_type = ''25'', iid = 8\<rparr>]\<rparr>,
            \<lparr>svc_type = ''96'', name = None, characteristics = [\<lparr>ch_type = ''68'', iid = 9\<rparr>]\<rparr>]\<rparr>],
      httpClient = True\<rparr>,
      [Log Info,
       NewVacuumAccessory \<lparr>displayName = ''Robot Vacuum'', UUID = ''uuid-5'',
            context' = \<lparr>accessoryAid = Some 5, onCharacteristic = Some 8,
                        batteryCharacteristic = Some 9\<rparr>\<rparr>,
       UpdatePlatformAccessories \<lparr>displayName = ''Robot Vacuum'', UUID = ''uuid-5'',
            context' = \<lparr>accessoryAid = Some 5, onCharacteristic = Some 8,
                        batteryCharacteristic = Some 9\<rparr>\<rparr>,
       Log Info,
       UnregisterPlatformAccessories \<lparr>displayName = ''Old Vacuum'', UUID = ''uuid-7'',
            context' = \<lparr>accessoryAid = Some 7, onCharacteristic = Some 2,
                        batteryCharacteristic = Some 3\<rparr>\<rparr>])"
  using discoverDevices_retirement [of
     "\<lparr>accessories =
        [(''uuid-7'', \<lparr>displayName = ''Old Vacuum'', UUID = ''uuid-7'',
            context' = \<lparr>accessoryAid = Some 7, onCharacteristic = Some 2,
                        batteryCharacteristic = Some 3\<rparr>\<rparr>),
         (''uuid-5'', \<lparr>displayName = ''Robot Vacuum'', UUID = ''uuid-5'',
            context' = \<lparr>accessoryAid = Some 5, onCharacteristic = None,
                        batteryCharacteristic = None\<rparr>\<rparr>)],
      discoveredCacheUUIDs = [],
      bridgeAccessories =
        [\<lparr>aid = 5, services = Some
           [\<lparr>svc_type = ''49'', name = None, characteristics = [\<lparr>ch_type = ''25'', iid = 8\<rparr>]\<rparr>,
            \<lparr>svc_type = ''96'', name = None, characteristics = [\<lparr>ch_type = ''68'', iid = 9\<rparr>]\<rparr>]\<rparr>],
      httpClient = True\<rparr>"
     sampleGenerate
     "\<lparr>aid = 5, services = Some
           [\<lparr>svc_type = ''49'', name = None, characteristics = [\<lparr>ch_type = ''25'', iid = 8\<rparr>]\<rparr>,
            \<lparr>svc_type = ''96'', name = None, characteristics = [\<lparr>ch_type = ''68'', iid = 9\<rparr>]\<rparr>]\<rparr>"
     "''uuid-7''"
     "\<lparr>displayName = ''Old Vacuum'', UUID = ''uuid-7'',
            context' = \<lparr>accessoryAid = Some 7, onCharacteristic = Some 2,
                        batteryCharacteristic = Some 3\<rparr>\<rparr>"]
  by (simp add: platform_eval string_eval)

section \<open>C3: reconciliation twice in a row\<close>

lemma filter_all_keys:
  "fst ` set registry \<subseteq> {k. p k} \<Longrightarrow> filter (\<lambda>(k, _). p k) registry = registry"
  by (induction registry) auto

lemma filter_no_keys:
  "fst ` set registry \<subseteq> {k. p k} \<Longrightarrow> filter (\<lambda>(k, _). \<not> p k) registry = []"
  by (induction registry) auto

lemma discoverDevices_second_pass:
  assumes client: "httpClient this"
    and found: "findCandidate (bridgeAccessories this) = Some candidate"
  shows "accessories (fst (discoverDevices generate (fst (discoverDevices generate this)))) =
           accessories (fst (discoverDevices generate this))"
    and "registered (snd (discoverDevices generate (fst (discoverDevices generate this)))) = []"
    and "unregistered (snd (discoverDevices generate (fst (discoverDevices generate this)))) = []"
proof -
  let ?uuid = "derivedIdentifier generate candidate"
  let ?discovered = "discoveredCacheUUIDs this @ [?uuid]"
  let ?stored = "storedAccessory ?uuid (candidateDisplayName candidate)
                   (matchedContext candidate) (accessories this)"
  let ?this1 = "fst (discoverDevices generate this)"
  have reg1: "accessories ?this1 =
      filter (\<lambda>(k, _). k \<in> set ?discovered) (AList.update ?uuid ?stored (accessories this))"
    using client found by (rule discoverDevices_matched_accessories)
  have disc1: "discoveredCacheUUIDs ?this1 = ?discovered"
    by (simp add: discoverDevices_matched [OF client found])
  have client1: "httpClient ?this1"
    using client discoverDevices_graph [of generate this] by simp
  have found1: "findCandidate (bridgeAccessories ?this1) = Some candidate"
    using found discoverDevices_graph [of generate this] by simp
  have lookup: "map_of (accessories ?this1) ?uuid = Some ?stored"
    unfolding reg1 map_of_filter_key by (simp add: update_conv')
  have stored1: "storedAccessory ?uuid (candidateDisplayName candidate)
                   (matchedContext candidate) (accessories ?this1) = ?stored"
    by (simp add: storedAccessory_def [of _ _ _ "accessories ?this1"] lookup)
  have same: "AList.update ?uuid ?stored (accessories ?this1) = accessories ?this1"
    using lookup by (rule update_triv)
  have "fst ` set (accessories ?this1) \<subseteq> {k. k \<in> set ?discovered}"
    unfolding reg1 keys_filter by (rule Collect_mono) (rule impI, erule conjunct2)
  then have keys1: "fst ` set (accessories ?this1) \<subseteq> {k. k \<in> set (?discovered @ [?uuid])}"
    by (rule subset_trans) (simp add: Collect_mono)
  have reg2: "accessories (fst (discoverDevices generate ?this1)) =
      filter (\<lambda>(k, _). k \<in> set (?discovered @ [?uuid])) (accessories ?this1)"
    using discoverDevices_matched_accessories [OF client1 found1, of generate]
    unfolding disc1 stored1 same .
  show "accessories (fst (discoverDevices generate ?this1)) = accessories ?this1"
    unfolding reg2 using keys1 by (rule filter_all_keys)
  show "registered (snd (discoverDevices generate ?this1)) = []"
    using discoverDevices_matched_registered [OF client1 found1, of generate] lookup by simp
  have "unregistered (snd (discoverDevices generate ?this1)) =
      map snd (filter (\<lambda>(k, _). k \<notin> set (?discovered @ [?uuid])) (accessories ?this1))"
    using discoverDevices_matched_unregistered [OF client1 found1, of generate]
    unfolding disc1 .
  also have "filter (\<lambda>(k, _). k \<notin> set (?discovered @ [?uuid])) (accessories ?this1) = []"
    by (rule filter_no_keys) (rule keys1)
  finally show "unregistered (snd (discoverDevices generate ?this1)) = []" by simp
qed


text \<open>
  C3: a second pass of \<open>discoverDevices\<close> right after a first, on the same accessory graph,
  leaves the registry exactly as the first pass left it, registers nothing and unregisters
  nothing. When the first pass finds a match in a platform that has discovered nothing yet,
  with every key held once, the registry after it is the single accessory stored under the
  identifier derived from the matched \<open>aid\<close>, whose context holds that \<open>aid\<close> and the two
  captured \<open>iid\<close>s; the second pass finds it there and updates it with the same values.
\<close>

theorem reconciliation_idempotent:
  "accessories (fst (discoverDevices generate (fst (discoverDevices generate this)))) =
     accessories (fst (discoverDevices generate this))
   \<and> registered (snd (discoverDevices generate (fst (discoverDevices generate this)))) = []
   \<and> unregistered (snd (discoverDevices generate (fst (discoverDevices generate this)))) = []
   \<and> (httpClient this \<and> findCandidate (bridgeAccessories this) = Some candidate
        \<and> discoveredCacheUUIDs this = [] \<and> distinct (map fst (accessories this)) \<longrightarrow>
      accessories (fst (discoverDevices generate this)) =
        [(derivedIdentifier generate candidate,
          storedAccessory (derivedIdentifier generate candidate) (candidateDisplayName candidate)
            (matchedContext candidate) (accessories this))]
      \<and> context' (storedAccessory (derivedIdentifier generate candidate)
            (candidateDisplayName candidate) (matchedContext candidate) (accessories this)) =
          \<lparr>accessoryAid = Some (aid candidate),
           onCharacteristic =
             fst (extractCharacteristics (servicesOrEmpty candidate) (None, None)),
           batteryCharacteristic =
             snd (extractCharacteristics (servicesOrEmpty candidate) (None, None))\<rparr>)"
proof (cases "httpClient this \<and> findCandidate (bridgeAccessories this) \<noteq> None")
  case False
  then have early: "discoverDevices generate this = (this, [Log Warn])"
    by (intro discoverDevices_early) auto
  from False have "\<not> (httpClient this \<and> findCandidate (bridgeAccessories this) = Some candidate
        \<and> discoveredCacheUUIDs this = [] \<and> distinct (map fst (accessories this)))"
    by auto
  then show ?thesis unfolding early fst_conv snd_conv by auto
next
  case True
  then obtain found where client: "httpClient this"
    and found: "findCandidate (bridgeAccessories this) = Some found" by auto
  note second = discoverDevices_second_pass [OF client found, of generate]
  have ctx: "matchedContext candidate =
          \<lparr>accessoryAid = Some (aid candidate),
           onCharacteristic = fst (extractCharacteristics (servicesOrEmpty candidate) (None, None)),
           batteryCharacteristic =
             snd (extractCharacteristics (servicesOrEmpty candidate) (None, None))\<rparr>"
    by (simp add: matchedContext_def split: prod.split)
  show ?thesis
  proof (intro conjI impI)
    show "accessories (fst (discoverDevices generate (fst (discoverDevices generate this)))) =
        accessories (fst (discoverDevices generate this))"
      by (rule second(1))
    show "registered (snd (discoverDevices generate (fst (discoverDevices generate this)))) = []"
      by (rule second(2))
    show "unregistered (snd (discoverDevices generate (fst (discoverDevices generate this)))) = []"
      by (rule second(3))
  next
    assume a: "httpClient this \<and> findCandidate (bridgeAccessories this) = Some candidate
        \<and> discoveredCacheUUIDs this = [] \<and> distinct (map fst (accessories this))"
    then have cand: "findCandidate (bridgeAccessories this) = Some candidate"
      and fresh: "discoveredCacheUUIDs this = []"
      and dist: "distinct (map fst (accessories this))" by simp_all
    have "accessories (fst (discoverDevices generate this)) =
        filter (\<lambda>(k, _). k = derivedIdentifier generate candidate)
          (AList.update (derivedIdentifier generate candidate)
             (storedAccessory (derivedIdentifier generate candidate)
                (candidateDisplayName candidate) (matchedContext candidate) (accessories this))
             (accessories this))"
      by (simp add: discoverDevices_matched_accessories [OF client cand] fresh)
    also have "\<dots> = [(derivedIdentifier generate candidate,
          storedAccessory (derivedIdentifier generate candidate) (candidateDisplayName candidate)
            (matchedContext candidate) (accessories this))]"
      using dist by (rule filter_update_same)
    finally show "accessories (fst (discoverDevices generate this)) =
        [(derivedIdentifier generate candidate,
          storedAccessory (derivedIdentifier generate candidate) (candidateDisplayName candidate)
            (matchedContext candidate) (accessories this))]" .
  next
    show "context' (storedAccessory (derivedIdentifier generate candidate)
            (candidateDisplayName candidate) (matchedContext candidate) (accessories this)) =
          \<lparr>accessoryAid = Some (aid candidate),
           onCharacteristic =
             fst (extractCharacteristics (servicesOrEmpty candidate) (None, None)),
           batteryCharacteristic =
             snd (extractCharacteristics (servicesOrEmpty candidate) (None, None))\<rparr>"
      using ctx by simp
  qed
qed

theorem reconciliation_idempotent_witness:
  "findCandidate
        [\<lparr>aid = 5, services = Some
           [\<lparr>svc_type = ''49'', name = None, characteristics = [\<lparr>ch_type = ''25'', iid = 8\<rparr>]\<rparr>,
            \<lparr>svc_type = ''96'', name = None, characteristics = [\<lparr>ch_type = ''68'', iid = 9\<rparr>]\<rparr>]\<rparr>]
      = Some 
        (\<lparr>aid = 5, services = Some
           [\<lparr>svc_type = ''49'', name = None, characteristics = [\<lparr>ch_type = ''25'', iid = 8\<rparr>]\<rparr>,
            \<lparr>svc_type = ''96'', name = None, characteristics = [\<lparr>ch_type = ''68'', iid = 9\<rparr>]\<rparr>]\<rparr>)
   \<and> derivedIdentifier sampleGenerate 
        (\<lparr>aid = 5, services = Some
           [\<lparr>svc_type = ''49'', name = None, characteristics = [\<lparr>ch_type = ''25'', iid = 8\<rparr>]\<rparr>,
            \<lparr>svc_type = ''96'', name = None, characteristics = [\<lparr>ch_type = ''68'', iid = 9\<rparr>]\<rparr>]\<rparr>) = ''uuid-5''
   \<and> discoverDevices sampleGenerate
     \<lparr>accessories = [], discoveredCacheUUIDs = [],
      bridgeAccessories =
        [\<lparr>aid = 5, services = Some
           [\<lparr>svc_type = ''49'', name = None, characteristics = [\<lparr>ch_type = ''25'', iid = 8\<rparr>]\<rparr>,
            \<lparr>svc_type = ''96'', name = None, characteristics = [\<lparr>ch_type = ''68'', iid = 9\<rparr>]\<rparr>]\<rparr>],
      httpClient = True\<rparr>
   = (\<lparr>accessories =
        [(''uuid-5'', \<lparr>displayName = ''Robot Vacuum'', UUID = ''uuid-5'',
            context' = \<lparr>accessoryAid = Some 5, onCharacteristic = Some 8,
                        batteryCharacteristic = Some 9\<rparr>\<rparr>)],
      discoveredCacheUUIDs = [''uuid-5''],
      bridgeAccessories =
        [\<lparr>aid = 5, services = Some
           [\<lparr>svc_type = ''49'', name = None, characteristics = [\<lparr>ch_type = ''25'', iid = 8\<rparr>]\<rparr>,
            \<lparr>svc_type = ''96'', name = None, characteristics = [\<lparr>ch_type = ''68'', iid = 9\<rparr>]\<rparr>]\<rparr>],
      httpClient = True\<rparr>,
      [Log Info,
       NewVacuumAccessory \<lparr>displayName = ''Robot Vacuum'', UUID = ''uuid-5'',
            context' = \<lparr>accessoryAid = Some 5, onCharacteristic = Some 8,
                        batteryCharacteristic = Some 9\<rparr>\<rparr>,
       RegisterPlatformAccessories \<lparr>displayName = ''Robot Vacuum'', UUID = ''uuid-5'',
            context' = \<lparr>accessoryAid = Some 5, onCharacteristic = Some 8,
                        batteryCharacteristic = Some 9\<rparr>\<rparr>])
   \<and> discoverDevices sampleGenerate
     \<lparr>accessories =
        [(''uuid-5'', \<lparr>displayName = ''Robot Vacuum'', UUID = ''uuid-5'',
            context' = \<lparr>accessoryAid = Some 5, onCharacteristic = Some 8,
                        batteryCharacteristic = Some 9\<rparr>\<rparr>)],
      discoveredCacheUUIDs = [''uuid-5''],
      bridgeAccessories =
        [\<lparr>aid = 5, services = Some
           [\<lparr>svc_type = ''49'', name = None, characteristics = [\<lparr>ch_type = ''25'', iid = 8\<rparr>]\<rparr>,
            \<lparr>svc_type = ''96'', name = None, characteristics = [\<lparr>ch_type = ''68'', iid = 9\<rparr>]\<rparr>]\<rparr>],
      httpClient = True\<rparr>
   = (\<lparr>accessories =
        [(''uuid-5'', \<lparr>displayName = ''Robot Vacuum'', UUID = ''uuid-5'',
            context' = \<lparr>accessoryAid = Some 5, onCharacteristic = Some 8,
                        batteryCharacteristic = Some 9\<rparr>\<rparr>)],
      discoveredCacheUUIDs = [''uuid-5'', ''uuid-5''],
      bridgeAccessories =
        [\<lparr>aid = 5, services = Some
           [\<lparr>svc_type = ''49'', name = None, characteristics = [\<lparr>ch_type = ''25'', iid = 8\<rparr>]\<rparr>,
            \<lparr>svc_type = ''96'', name = None, characteristics = [\<lparr>ch_type = ''68'', iid = 9\<rparr>]\<rparr>]\<rparr>],
      httpClient = True\<rparr>,
      [Log Info,
       NewVacuumAccessory \<lparr>displayName = ''Robot Vacuum'', UUID = ''uuid-5'',
            context' = \<lparr>accessoryAid = Some 5, onCharacteristic = Some 8,
                        batteryCharacteristic = Some 9\<rparr>\<rparr>,
       UpdatePlatformAccessories \<lparr>displayName = ''Robot Vacuum'', UUID = ''uuid-5'',
            context' = \<lparr>accessoryAid = Some 5, onCharacteristic = Some 8,
                        batteryCharacteristic = Some 9\<rparr>\<rparr>])"
  using reconciliation_idempotent [of sampleGenerate
     "\<lparr>accessories = [], discoveredCacheUUIDs = [],
      bridgeAccessories =
        [\<lparr>aid = 5, services = Some
           [\<lparr>svc_type = ''49'', name = None, characteristics = [\<lparr>ch_type = ''25'', iid = 8\<rparr>]\<rparr>,
            \<lparr>svc_type = ''96'', name = None, characteristics = [\<lparr>ch_type = ''68'', iid = 9\<rparr>]\<rparr>]\<rparr>],
      httpClient = True\<rparr>"
     "\<lparr>aid = 5, services = Some
           [\<lparr>svc_type = ''49'', name = None, characteristics = [\<lparr>ch_type = ''25'', iid = 8\<rparr>]\<rparr>,
            \<lparr>svc_type = ''96'', name = None, characteristics = [\<lparr>ch_type = ''68'', iid = 9\<rparr>]\<rparr>]\<rparr>"]
  by (simp add: platform_eval string_eval)

end
